theory Spec2Isabelle
  imports Main "HOL-Library.Word"
begin

section \<open>Machine types, errors and owned arrays\<close>

text \<open>
  \<^verbatim>\<open>uint32_t\<close> and \<^verbatim>\<open>uint8_t\<close> are words whose arithmetic wraps around.
  \<^verbatim>\<open>IdxT\<close> is the template parameter of \<^verbatim>\<open>ivf_pq::index\<close>; its
  \<^verbatim>\<open>static_assert\<close> asks that it holds every \<^verbatim>\<open>uint32_t\<close>, and the model fixes
  the instantiation \<^verbatim>\<open>uint64_t\<close>. Array elements of type \<^verbatim>\<open>float\<close> are never
  computed with, so the type is left opaque. A device pointer is a 64-bit address.
\<close>

type_synonym u32 = "32 word"
type_synonym u8 = "8 word"
type_synonym IdxT = "64 word"
type_synonym address = "64 word"
typedecl float

text \<open>
  \<^verbatim>\<open>enum class codebook_gen { PER_SUBSPACE = 0, PER_CLUSTER = 1 }\<close>. A scoped enumeration
  without a declared underlying type has the underlying type \<^verbatim>\<open>int\<close>, and every value
  of that type is a value of the enumeration (\<^verbatim>\<open>static_cast<codebook_gen>(2)\<close> is one):
  the type is the 32-bit word, and the two enumerators are names for 0 and 1.
\<close>

type_synonym codebook_gen = "32 word"

definition PER_SUBSPACE :: codebook_gen where
  "PER_SUBSPACE = 0"

definition PER_CLUSTER :: codebook_gen where
  "PER_CLUSTER = 1"

text \<open>
  Every way in which a call can fail to return normally is a value.
  \<^item> \<open>StructuralInvariantViolation msg vals\<close>: a failed \<^verbatim>\<open>RAFT_EXPECTS\<close>, with its format
    string and the numbers printed into it;
  \<^item> \<open>AllocationFailure\<close>: the allocator of the handle cannot serve a request;
  \<^item> \<open>DivisionByZero\<close>, \<open>UndefinedShift\<close>: an integer division by zero, a shift of a 32-bit
    \<^verbatim>\<open>int\<close> by 32 or more (both without a defined result in C++);
  \<^item> \<open>AssertionFailure\<close>: a failed \<^verbatim>\<open>assert\<close>;
  \<^item> \<open>RaftFail msg\<close>: a \<^verbatim>\<open>RAFT_FAIL\<close> with its message. The macro comes from
    \<^verbatim>\<open>raft/core/error.hpp\<close>, which is not among the sources, as \<^verbatim>\<open>RAFT_EXPECTS\<close> does;
    the spec calls its one use "an unreachable, fatal condition" and also lists it with
    the structural failures. The model gives it a value of its own, which ends the call
    as every other failure does.
\<close>

datatype error =
    StructuralInvariantViolation string "u32 list"
  | AllocationFailure
  | DivisionByZero
  | UndefinedShift
  | AssertionFailure
  | RaftFail string

fun bind_res :: "error + 'a \<Rightarrow> ('a \<Rightarrow> error + 'b) \<Rightarrow> error + 'b" where
  "bind_res (Inl e) f = Inl e"
| "bind_res (Inr x) f = f x"

text \<open>
  \<^verbatim>\<open>device_mdarray<ElementType, Extents, row_major>\<close>: the extents (a word for rank 1, a
  pair for rank 2, a triple for rank 3, as the rank is part of the C++ type) and the
  elements by flat offset. An offset nothing has been stored at maps to \<open>None\<close>: a fresh
  buffer is uninitialised.
\<close>

record ('e, 'x) mdarray =
  extents :: 'x
  elems :: "nat \<rightharpoonup> 'e"

text \<open>
  The execution context \<^verbatim>\<open>handle_t\<close> is opaque to the index; all the index asks of it
  is memory. The model keeps the one thing that can be observed: the outcomes of the
  allocation requests still to come, in order (\<open>True\<close>: served). A handle whose list is
  used up serves every further request.
\<close>

type_synonym handle_t = "bool list"

text \<open>
  Modelled from the spec: \<^verbatim>\<open>raft::make_device_mdarray\<close> (declared in
  \<^verbatim>\<open>raft/core/device_mdarray.hpp\<close>, which is not among the sources). The spec's Owned
  Array "allocates a buffer of the requested shape", with uninitialised contents, and an
  AllocationFailure is "propagated to the caller without retry".
\<close>

definition make_device_mdarray :: "handle_t \<Rightarrow> 'x \<Rightarrow> error + handle_t \<times> ('e, 'x) mdarray" where
  "make_device_mdarray handle exts =
     (case handle of
        [] \<Rightarrow> Inr ([], \<lparr>extents = exts, elems = Map.empty\<rparr>)
      | served # rest \<Rightarrow>
          if served then Inr (rest, \<lparr>extents = exts, elems = Map.empty\<rparr>)
          else Inl AllocationFailure)"

section \<open>Integer helpers\<close>

text \<open>
  Modelled from the spec: \<^verbatim>\<open>raft::round_down_safe\<close> (\<^verbatim>\<open>raft/util/integer_utils.hpp\<close> is
  not among the sources). The spec: "round the result down to the nearest multiple of 32".
\<close>

definition round_down_safe :: "u32 \<Rightarrow> u32 \<Rightarrow> u32" where
  "round_down_safe number_to_round modulus = number_to_round - number_to_round mod modulus"

text \<open>
  Modelled from the spec: \<^verbatim>\<open>raft::round_up_safe\<close> (same missing header). The spec:
  \<^verbatim>\<open>dim_ext = round_up(dim+1, 8)\<close>. The spec does not say what happens when the next
  multiple does not fit 32 bits; the model wraps around there.
\<close>

definition round_up_safe :: "u32 \<Rightarrow> u32 \<Rightarrow> u32" where
  "round_up_safe number_to_round modulus =
     (if number_to_round mod modulus = 0 then number_to_round
      else number_to_round - number_to_round mod modulus + modulus)"

text \<open>
  Modelled from the spec: \<^verbatim>\<open>raft::div_rounding_up_unsafe\<close> (same missing header). The
  spec: \<^verbatim>\<open>pq_len = ceil_div(dim, pq_dim)\<close>, the quotient rounded up: the quotient, and one
  more when the division leaves a remainder. A zero divisor is an error value.
\<close>

definition div_rounding_up_unsafe :: "u32 \<Rightarrow> u32 \<Rightarrow> error + u32" where
  "div_rounding_up_unsafe dividend divisor =
     (if divisor = 0 then Inl DivisionByZero
      else Inr (dividend div divisor + (if dividend mod divisor = 0 then 0 else 1)))"

section \<open>The heuristic for \<^verbatim>\<open>pq_dim\<close>\<close>

text \<open>
  The loop \<^verbatim>\<open>while ((r << 1) <= dim) { r = r << 1; }\<close> of \<^verbatim>\<open>calculate_pq_dim\<close>. On 32-bit words
  it need not end (once \<open>r\<close> is 0 it stays 0), so not returning is the value \<open>None\<close>.
\<close>

partial_function (option) pow2_loop :: "u32 \<Rightarrow> u32 \<Rightarrow> u32 option" where
  "pow2_loop r dim = (if push_bit 1 r \<le> dim then pow2_loop (push_bit 1 r) dim else Some r)"

declare pow2_loop.simps [code]

definition calculate_pq_dim :: "u32 \<Rightarrow> u32 option" where
  "calculate_pq_dim dim0 =
     (let dim = (if 128 \<le> dim0 then dim0 div 2 else dim0);
          r = round_down_safe dim 32
      in if 0 < r then Some r else pow2_loop 1 dim)"

section \<open>The IVF-PQ index\<close>

text \<open>
  The scalar members come first in the class and are initialised first; the getters read
  only them, so they are defined on every record that has the scalar fields, which lets
  the constructor call them before the arrays exist (as the member initialisers do).
  The C++ member \<^verbatim>\<open>x_\<close> is the field \<open>x_m\<close>: an Isabelle name cannot end with an
  underscore.
\<close>

record 'm index_scalars =
  metric_m :: 'm
  codebook_kind_m :: codebook_gen
  n_lists_m :: u32
  dim_m :: u32
  pq_bits_m :: u32
  pq_dim_m :: u32
  n_nonempty_lists_m :: u32

record 'm index = "'m index_scalars" +
  pq_centers_m :: "(float, u32 \<times> u32 \<times> u32) mdarray"
  pq_dataset_m :: "(u8, IdxT \<times> IdxT) mdarray"
  indices_m :: "(IdxT, IdxT) mdarray"
  rotation_matrix_m :: "(float, u32 \<times> u32) mdarray"
  list_offsets_m :: "(IdxT, u32) mdarray"
  centers_m :: "(float, u32 \<times> u32) mdarray"
  centers_rot_m :: "(float, u32 \<times> u32) mdarray"

definition size_index :: "'m index \<Rightarrow> IdxT" where
  "size_index idx = extents (indices_m idx)"

definition dim :: "('m, 'z) index_scalars_scheme \<Rightarrow> u32" where
  "dim idx = dim_m idx"

definition pq_bits :: "('m, 'z) index_scalars_scheme \<Rightarrow> u32" where
  "pq_bits idx = pq_bits_m idx"

definition pq_dim :: "('m, 'z) index_scalars_scheme \<Rightarrow> u32" where
  "pq_dim idx = pq_dim_m idx"

definition codebook_kind :: "('m, 'z) index_scalars_scheme \<Rightarrow> codebook_gen" where
  "codebook_kind idx = codebook_kind_m idx"

definition n_lists :: "('m, 'z) index_scalars_scheme \<Rightarrow> u32" where
  "n_lists idx = n_lists_m idx"

definition dim_ext :: "('m, 'z) index_scalars_scheme \<Rightarrow> u32" where
  "dim_ext idx = round_up_safe (dim idx + 1) 8"

definition pq_len :: "('m, 'z) index_scalars_scheme \<Rightarrow> error + u32" where
  "pq_len idx = div_rounding_up_unsafe (dim idx) (pq_dim idx)"

definition rot_dim :: "('m, 'z) index_scalars_scheme \<Rightarrow> error + u32" where
  "rot_dim idx = bind_res (pq_len idx) (\<lambda>l. Inr (l * pq_dim idx))"

text \<open>
  \<^verbatim>\<open>1 << pq_bits()\<close> shifts the \<^verbatim>\<open>int\<close> 1 and converts to \<^verbatim>\<open>uint32_t\<close>: for a count
  below 32 that is the word shift; for a larger count C++ defines no result.
\<close>

definition pq_book_size :: "('m, 'z) index_scalars_scheme \<Rightarrow> error + u32" where
  "pq_book_size idx =
     (if unat (pq_bits idx) < 32 then Inr (push_bit (unat (pq_bits idx)) 1)
      else Inl UndefinedShift)"

definition check_consistency :: "('m, 'z) index_scalars_scheme \<Rightarrow> error option" where
  "check_consistency idx =
     (if \<not> (4 \<le> pq_bits idx \<and> pq_bits idx \<le> 8) then
        Some (StructuralInvariantViolation
          ''`pq_bits` must be within closed range [4,8], but got %u.'' [pq_bits idx])
      else if (pq_bits idx * pq_dim idx) mod 8 \<noteq> 0 then
        Some (StructuralInvariantViolation
          ''`pq_bits * pq_dim` must be a multiple of 8, but got %u * %u = %u.''
          [pq_bits idx, pq_dim idx, pq_bits idx * pq_dim idx])
      else None)"

text \<open>
  The switch of \<^verbatim>\<open>make_pq_centers_extents\<close>, with its
  \<^verbatim>\<open>default: RAFT_FAIL("Unreachable code")\<close>: the getters are called in the two named
  cases only.
\<close>

definition make_pq_centers_extents ::
  "('m, 'z) index_scalars_scheme \<Rightarrow> error + u32 \<times> u32 \<times> u32" where
  "make_pq_centers_extents idx =
     (if codebook_kind idx = PER_SUBSPACE then
        bind_res (pq_book_size idx) (\<lambda>b. bind_res (pq_len idx) (\<lambda>l. Inr (pq_dim idx, b, l)))
      else if codebook_kind idx = PER_CLUSTER then
        bind_res (pq_book_size idx) (\<lambda>b. bind_res (pq_len idx) (\<lambda>l. Inr (n_lists idx, b, l)))
      else Inl (RaftFail ''Unreachable code''))"

text \<open>
  The constructor. The member initialisers run in the order of declaration: the scalars
  (with \<^verbatim>\<open>pq_dim == 0 ? calculate_pq_dim(dim) : pq_dim\<close>), then the seven arrays, each
  requested from the handle; \<^verbatim>\<open>check_consistency()\<close> is the constructor's body and runs
  last. The outer \<open>option\<close> is \<open>None\<close> when \<^verbatim>\<open>calculate_pq_dim\<close> does not return; an
  exception leaves no object, so \<open>Inl\<close> carries the error alone.
\<close>

definition construct ::
  "handle_t \<Rightarrow> 'm \<Rightarrow> codebook_gen \<Rightarrow> u32 \<Rightarrow> u32 \<Rightarrow> u32 \<Rightarrow> u32 \<Rightarrow> u32
     \<Rightarrow> (error + handle_t \<times> 'm index) option" where
  "construct handle metric0 codebook_kind0 n_lists0 dim0 pq_bits0 pq_dim0 n_nonempty_lists0 =
     (case (if pq_dim0 = 0 then calculate_pq_dim dim0 else Some pq_dim0) of
        None \<Rightarrow> None
      | Some pq_dim1 \<Rightarrow> Some (
          let s = \<lparr>metric_m = metric0, codebook_kind_m = codebook_kind0, n_lists_m = n_lists0,
                   dim_m = dim0, pq_bits_m = pq_bits0, pq_dim_m = pq_dim1,
                   n_nonempty_lists_m = n_nonempty_lists0\<rparr>
          in
          bind_res (make_pq_centers_extents s) (\<lambda>e.
          bind_res (make_device_mdarray handle e) (\<lambda>(h1, a_pq_centers).
          bind_res (make_device_mdarray h1 (0, ucast (pq_dim s * pq_bits s div 8)))
            (\<lambda>(h2, a_pq_dataset).
          bind_res (make_device_mdarray h2 0) (\<lambda>(h3, a_indices).
          bind_res (rot_dim s) (\<lambda>r.
          bind_res (make_device_mdarray h3 (r, dim s)) (\<lambda>(h4, a_rotation_matrix).
          bind_res (make_device_mdarray h4 (n_lists s + 1)) (\<lambda>(h5, a_list_offsets).
          bind_res (make_device_mdarray h5 (n_lists s, dim_ext s)) (\<lambda>(h6, a_centers).
          bind_res (rot_dim s) (\<lambda>r'.
          bind_res (make_device_mdarray h6 (n_lists s, r')) (\<lambda>(h7, a_centers_rot).
            let idx = \<lparr>metric_m = metric0, codebook_kind_m = codebook_kind0,
                         n_lists_m = n_lists0, dim_m = dim0, pq_bits_m = pq_bits0,
                         pq_dim_m = pq_dim1, n_nonempty_lists_m = n_nonempty_lists0,
                         pq_centers_m = a_pq_centers, pq_dataset_m = a_pq_dataset,
                         indices_m = a_indices, rotation_matrix_m = a_rotation_matrix,
                         list_offsets_m = a_list_offsets, centers_m = a_centers,
                         centers_rot_m = a_centers_rot\<rparr>
            in case check_consistency idx of
                 Some err \<Rightarrow> Inl err
               | None \<Rightarrow> Inr (h7, idx)))))))))))))"

text \<open>
  \<^verbatim>\<open>allocate\<close>: two assignments, each of a freshly made array, then the check. An
  exception leaves the object as the statements before it made it, so \<open>Inl\<close> carries the
  error together with the index left behind.
\<close>

definition allocate ::
  "handle_t \<Rightarrow> 'm index \<Rightarrow> IdxT \<Rightarrow> error \<times> 'm index + handle_t \<times> 'm index" where
  "allocate handle idx index_size =
     (case make_device_mdarray handle (index_size, snd (extents (pq_dataset_m idx))) of
        Inl err \<Rightarrow> Inl (err, idx)
      | Inr (h1, a_pq_dataset) \<Rightarrow>
          let idx1 = idx\<lparr>pq_dataset_m := a_pq_dataset\<rparr> in
          (case make_device_mdarray h1 index_size of
             Inl err \<Rightarrow> Inl (err, idx1)
           | Inr (h2, a_indices) \<Rightarrow>
               let idx2 = idx1\<lparr>indices_m := a_indices\<rparr> in
               (case check_consistency idx2 of
                  Some err \<Rightarrow> Inl (err, idx2)
                | None \<Rightarrow> Inr (h2, idx2))))"

text \<open>
  The accessors (\<^verbatim>\<open>pq_centers()\<close>, \<^verbatim>\<open>list_offsets()\<close>, ...) return views over the owned
  storage, through which the trainer and the encoder fill the arrays. A store through
  such a view changes one element and no extent.
\<close>

definition store :: "('e, 'x) mdarray \<Rightarrow> nat \<Rightarrow> 'e \<Rightarrow> ('e, 'x) mdarray" where
  "store a i v = a\<lparr>elems := (elems a)(i \<mapsto> v)\<rparr>"

text \<open>
  The states an index can be in: made by the constructor, then changed by calls of
  \<^verbatim>\<open>allocate\<close> (returning or throwing) and by stores through the views.
\<close>

inductive reachable :: "'m index \<Rightarrow> bool" where
  reach_construct:
    "construct handle metric0 kind0 n_lists0 dim0 pq_bits0 pq_dim0 n_nonempty0
       = Some (Inr (handle', idx)) \<Longrightarrow> reachable idx"
| reach_allocate:
    "reachable idx \<Longrightarrow> allocate handle idx n = Inr (handle', idx') \<Longrightarrow> reachable idx'"
| reach_allocate_thrown:
    "reachable idx \<Longrightarrow> allocate handle idx n = Inl (err, idx') \<Longrightarrow> reachable idx'"
| reach_store_pq_centers:
    "reachable idx \<Longrightarrow> reachable (idx\<lparr>pq_centers_m := store (pq_centers_m idx) i x\<rparr>)"
| reach_store_pq_dataset:
    "reachable idx \<Longrightarrow> reachable (idx\<lparr>pq_dataset_m := store (pq_dataset_m idx) i c\<rparr>)"
| reach_store_indices:
    "reachable idx \<Longrightarrow> reachable (idx\<lparr>indices_m := store (indices_m idx) i j\<rparr>)"
| reach_store_rotation_matrix:
    "reachable idx \<Longrightarrow>
       reachable (idx\<lparr>rotation_matrix_m := store (rotation_matrix_m idx) i x\<rparr>)"
| reach_store_list_offsets:
    "reachable idx \<Longrightarrow> reachable (idx\<lparr>list_offsets_m := store (list_offsets_m idx) i j\<rparr>)"
| reach_store_centers:
    "reachable idx \<Longrightarrow> reachable (idx\<lparr>centers_m := store (centers_m idx) i x\<rparr>)"
| reach_store_centers_rot:
    "reachable idx \<Longrightarrow> reachable (idx\<lparr>centers_rot_m := store (centers_rot_m idx) i x\<rparr>)"

text \<open>
  The final entry of \<^verbatim>\<open>list_offsets\<close>: the element at offset \<^verbatim>\<open>extent(0) - 1\<close>, if the
  array has one and it has been stored.
\<close>

definition last_list_offset :: "'m index \<Rightarrow> IdxT option" where
  "last_list_offset idx =
     (if extents (list_offsets_m idx) = 0 then None
      else elems (list_offsets_m idx) (unat (extents (list_offsets_m idx)) - 1))"

text \<open>A handle serves its next \<open>n\<close> requests.\<close>

definition serves :: "handle_t \<Rightarrow> nat \<Rightarrow> bool" where
  "serves handle n \<longleftrightarrow> (\<forall>served \<in> set (take n handle). served)"

text \<open>
  The index of the spec's scenario (\<^verbatim>\<open>n_lists=8, pq_bits=8, pq_dim=0, dim=128\<close>), as the
  constructor makes it.
\<close>

definition example_index :: "unit index" where
  "example_index =
     \<lparr>metric_m = (), codebook_kind_m = PER_SUBSPACE, n_lists_m = 8, dim_m = 128,
      pq_bits_m = 8, pq_dim_m = 64, n_nonempty_lists_m = 0,
      pq_centers_m = \<lparr>extents = (64, 256, 2), elems = Map.empty\<rparr>,
      pq_dataset_m = \<lparr>extents = (0, 64), elems = Map.empty\<rparr>,
      indices_m = \<lparr>extents = 0, elems = Map.empty\<rparr>,
      rotation_matrix_m = \<lparr>extents = (128, 128), elems = Map.empty\<rparr>,
      list_offsets_m = \<lparr>extents = 9, elems = Map.empty\<rparr>,
      centers_m = \<lparr>extents = (8, 136), elems = Map.empty\<rparr>,
      centers_rot_m = \<lparr>extents = (8, 128), elems = Map.empty\<rparr>\<rparr>"

section \<open>Aligned matrix views\<close>

text \<open>
  \<^verbatim>\<open>device_aligned_matrix_view\<close>: the wrapped pointer and the matrix extents. A view owns no
  memory, and making one takes no memory as input and gives none back.
\<close>

record 'i device_aligned_matrix_view =
  data_handle :: address
  view_extents :: "'i \<times> 'i"

text \<open>
  Modelled from the spec: \<^verbatim>\<open>detail::alignment::value\<close> (declared in
  \<^verbatim>\<open>raft/core/mdspan.hpp\<close>, which is not among the sources): the "fixed byte alignment
  (128)".
\<close>

definition alignment_value :: address where
  "alignment_value = 128"

text \<open>
  Modelled from the spec: \<^verbatim>\<open>alignTo\<close> (same missing header). The spec reads the test
  \<^verbatim>\<open>ptr == alignTo(ptr, alignment)\<close> as "the supplied base address is a multiple of the
  fixed alignment": the pointer moved up to the next multiple of the alignment.
\<close>

definition alignTo :: "address \<Rightarrow> address \<Rightarrow> address" where
  "alignTo p a = (if p mod a = 0 then p else p - p mod a + a)"

text \<open>
  The check of \<^verbatim>\<open>make_device_aligned_matrix_view\<close> is an \<^verbatim>\<open>assert\<close>, which the
  preprocessor removes when \<^verbatim>\<open>NDEBUG\<close> is defined; the build setting is the first
  argument.
\<close>

definition make_device_aligned_matrix_view ::
  "bool \<Rightarrow> address \<Rightarrow> 'i \<Rightarrow> 'i \<Rightarrow> error + 'i device_aligned_matrix_view" where
  "make_device_aligned_matrix_view NDEBUG ptr n_rows n_cols =
     (if \<not> NDEBUG \<and> ptr \<noteq> alignTo ptr alignment_value then Inl AssertionFailure
      else Inr \<lparr>data_handle = ptr, view_extents = (n_rows, n_cols)\<rparr>)"

section \<open>Auxiliary definitions for the proofs\<close>

text \<open>
  The dimension after the optional halving, and the closed form of what the loop returns
  when started at 1 on an argument below 32.
\<close>

definition halved :: "u32 \<Rightarrow> u32" where
  "halved dim0 = (if 128 \<le> dim0 then dim0 div 2 else dim0)"

definition pow2_below :: "u32 \<Rightarrow> u32" where
  "pow2_below d =
     (if d < 2 then 1 else if d < 4 then 2 else if d < 8 then 4 else if d < 16 then 8 else 16)"

text \<open>
  What the shapes of the arrays and the scalar fields have to do with each other in every
  state the index can reach.
\<close>

definition shape_ok :: "'m index \<Rightarrow> bool" where
  "shape_ok idx \<longleftrightarrow>
     check_consistency idx = None \<and>
     pq_dim idx \<noteq> 0 \<and>
     make_pq_centers_extents idx = Inr (extents (pq_centers_m idx)) \<and>
     snd (extents (pq_dataset_m idx)) = ucast (pq_dim idx * pq_bits idx div 8) \<and>
     rot_dim idx = Inr (fst (extents (rotation_matrix_m idx))) \<and>
     snd (extents (rotation_matrix_m idx)) = dim idx \<and>
     extents (list_offsets_m idx) = n_lists idx + 1 \<and>
     extents (centers_m idx) = (n_lists idx, dim_ext idx) \<and>
     extents (centers_rot_m idx) = (n_lists idx, fst (extents (rotation_matrix_m idx)))"

text \<open>
  More states for the examples: the scenario's index after the builder has stored the
  total length 0 as the final entry of \<^verbatim>\<open>list_offsets\<close>; that index after
  \<^verbatim>\<open>allocate(5)\<close>; the scenario's index with \<^verbatim>\<open>pq_dataset\<close> alone replaced by an
  array of 5 rows; the scenario's index made with \<^verbatim>\<open>PER_CLUSTER\<close> instead; and the
  index the constructor makes for
  \<^verbatim>\<open>n_lists=1, dim=4294967287, pq_bits=8, pq_dim=16\<close>.
\<close>

definition populated_example :: "unit index" where
  "populated_example =
     example_index\<lparr>list_offsets_m := store (list_offsets_m example_index) 8 0\<rparr>"

definition allocated_example :: "unit index" where
  "allocated_example =
     populated_example\<lparr>pq_dataset_m := \<lparr>extents = (5, 64), elems = Map.empty\<rparr>,
                        indices_m := \<lparr>extents = 5, elems = Map.empty\<rparr>\<rparr>"

definition half_allocated_example :: "unit index" where
  "half_allocated_example =
     example_index\<lparr>pq_dataset_m := \<lparr>extents = (5, 64), elems = Map.empty\<rparr>\<rparr>"

definition cluster_example :: "unit index" where
  "cluster_example =
     example_index\<lparr>codebook_kind_m := PER_CLUSTER,
                   pq_centers_m := \<lparr>extents = (8, 256, 2), elems = Map.empty\<rparr>\<rparr>"

definition wide_index :: "unit index" where
  "wide_index =
     \<lparr>metric_m = (), codebook_kind_m = PER_SUBSPACE, n_lists_m = 1, dim_m = 4294967287,
      pq_bits_m = 8, pq_dim_m = 16, n_nonempty_lists_m = 0,
      pq_centers_m = \<lparr>extents = (16, 256, 268435456), elems = Map.empty\<rparr>,
      pq_dataset_m = \<lparr>extents = (0, 16), elems = Map.empty\<rparr>,
      indices_m = \<lparr>extents = 0, elems = Map.empty\<rparr>,
      rotation_matrix_m = \<lparr>extents = (0, 4294967287), elems = Map.empty\<rparr>,
      list_offsets_m = \<lparr>extents = 2, elems = Map.empty\<rparr>,
      centers_m = \<lparr>extents = (1, 4294967288), elems = Map.empty\<rparr>,
      centers_rot_m = \<lparr>extents = (1, 0), elems = Map.empty\<rparr>\<rparr>"


section \<open>The heuristic: what the loop and the rounding compute\<close>

lemma pow2_loop_continue:
  "push_bit 1 r \<le> d \<Longrightarrow> pow2_loop r d = pow2_loop (push_bit 1 r) d"
  by (subst pow2_loop.simps) simp

lemma pow2_loop_exit: "\<not> push_bit 1 r \<le> d \<Longrightarrow> pow2_loop r d = Some r"
  by (subst pow2_loop.simps) simp

lemma below_32_cases:
  fixes d :: u32
  assumes "d < 32"
  shows "d \<in> word_of_nat ` set [0..<32]"
proof -
  from assms have "unat d < 32" by (simp add: word_less_nat_alt)
  then have "unat d \<in> set [0..<32]" by simp
  then have "word_of_nat (unat d) \<in> (word_of_nat ` set [0..<32] :: u32 set)" by (rule imageI)
  then show ?thesis by simp
qed

lemma two_not_le_one: "\<not> (2 :: u32) \<le> 1"
  by (simp add: word_le_nat_alt)

lemma pow2_loop_enum:
  "\<forall>d \<in> word_of_nat ` set [0..<32]. pow2_loop 1 d = Some (pow2_below d)"
  by (simp add: upt_rec pow2_below_def pow2_loop_continue pow2_loop_exit push_bit_eq_mult
      two_not_le_one)

lemma pow2_loop_low: "d < 32 \<Longrightarrow> pow2_loop 1 d = Some (pow2_below d)"
  using pow2_loop_enum below_32_cases by blast

lemma unat_round_down_safe: "unat (round_down_safe d 32) = unat d div 32 * 32"
proof -
  have le: "d mod 32 \<le> d" by (simp add: word_le_nat_alt unat_mod)
  have "unat (d - d mod 32) = unat d - unat (d mod 32)"
    using le by (simp add: unat_sub)
  also have "\<dots> = unat d - unat d mod 32" by (simp add: unat_mod)
  also have "\<dots> = unat d div 32 * 32" by (simp add: minus_mod_eq_div_mult)
  finally show ?thesis by (simp add: round_down_safe_def)
qed

lemma round_down_safe_pos: "0 < round_down_safe d 32 \<longleftrightarrow> 32 \<le> d"
proof -
  have "0 < round_down_safe d 32 \<longleftrightarrow> 0 < unat (round_down_safe d 32)"
    by (simp add: word_less_nat_alt)
  also have "\<dots> \<longleftrightarrow> 32 \<le> unat d" by (simp add: unat_round_down_safe div_greater_zero_iff)
  also have "\<dots> \<longleftrightarrow> 32 \<le> d" by (simp add: word_le_nat_alt)
  finally show ?thesis .
qed

lemma pow2_below_spec:
  fixes d :: u32
  assumes "d < 32" "d \<noteq> 0"
  shows "\<exists>k. unat (pow2_below d) = 2 ^ k \<and> 2 ^ k \<le> unat d \<and> unat d < 2 ^ (k + 1)"
proof -
  from assms have u: "unat d < 32" "unat d \<noteq> 0"
    by (simp_all add: word_less_nat_alt unat_eq_0)
  consider "unat d < 2" | "2 \<le> unat d" "unat d < 4" | "4 \<le> unat d" "unat d < 8"
    | "8 \<le> unat d" "unat d < 16" | "16 \<le> unat d" by linarith
  then show ?thesis
  proof cases
    case 1 then show ?thesis using u by (intro exI[of _ 0]) (simp add: pow2_below_def word_less_nat_alt)
  next
    case 2 then show ?thesis by (intro exI[of _ 1]) (simp add: pow2_below_def word_less_nat_alt)
  next
    case 3 then show ?thesis by (intro exI[of _ 2]) (simp add: pow2_below_def word_less_nat_alt)
  next
    case 4 then show ?thesis by (intro exI[of _ 3]) (simp add: pow2_below_def word_less_nat_alt)
  next
    case 5 then show ?thesis using u by (intro exI[of _ 4]) (simp add: pow2_below_def word_less_nat_alt)
  qed
qed

lemma round_down_safe_low: "d < 32 \<Longrightarrow> round_down_safe d 32 = 0" for d :: u32
proof -
  assume "d < 32"
  then have "unat d div 32 = 0" by (simp add: word_less_nat_alt)
  then have "unat (round_down_safe d 32) = 0" by (simp add: unat_round_down_safe)
  then show ?thesis by (simp add: unat_eq_0)
qed

lemma unat_halved: "unat (halved dim0) = (if 128 \<le> unat dim0 then unat dim0 div 2 else unat dim0)"
  by (simp add: halved_def word_le_nat_alt unat_div)

lemma calculate_pq_dim_eq:
  "calculate_pq_dim dim0 =
     Some (if 32 \<le> halved dim0 then round_down_safe (halved dim0) 32 else pow2_below (halved dim0))"
proof (cases "32 \<le> halved dim0")
  case True
  then show ?thesis
    unfolding calculate_pq_dim_def halved_def [symmetric]
    by (simp add: Let_def round_down_safe_pos)
next
  case False
  then have lt: "halved dim0 < 32" by simp
  with False show ?thesis
    unfolding calculate_pq_dim_def halved_def [symmetric]
    by (simp add: Let_def round_down_safe_low pow2_loop_low)
qed

lemma calculate_pq_dim_value:
  "\<exists>r. calculate_pq_dim dim0 = Some r \<and>
     (let d = (if 128 \<le> unat dim0 then unat dim0 div 2 else unat dim0);
          m = d div 32 * 32
      in if m \<noteq> 0 then unat r = m
         else if d = 0 then r = 1
         else \<exists>k. unat r = 2 ^ k \<and> 2 ^ k \<le> d \<and> d < 2 ^ (k + 1))"
proof (cases "32 \<le> halved dim0")
  case True
  then have "32 \<le> unat (halved dim0)" by (simp add: word_le_nat_alt)
  then have "unat (halved dim0) div 32 * 32 \<noteq> 0" by (simp add: div_greater_zero_iff)
  with True show ?thesis
    by (simp add: calculate_pq_dim_eq unat_round_down_safe unat_halved Let_def)
next
  case False
  then have lt: "halved dim0 < 32" by simp
  then have m0: "unat (halved dim0) div 32 * 32 = 0" by (simp add: word_less_nat_alt)
  show ?thesis
  proof (cases "halved dim0 = 0")
    case True
    with False m0 show ?thesis
      using unat_halved [of dim0]
      by (simp add: calculate_pq_dim_eq Let_def pow2_below_def split: if_splits)
  next
    case nz: False
    then have "unat (halved dim0) \<noteq> 0" by (simp add: unat_eq_0)
    moreover note pow2_below_spec [OF lt nz]
    ultimately show ?thesis
      using False m0 unat_halved [of dim0]
      by (simp add: calculate_pq_dim_eq Let_def split: if_splits)
  qed
qed

lemma calculate_pq_dim_pos: "calculate_pq_dim dim0 = Some r \<Longrightarrow> r \<noteq> 0"
proof -
  assume a: "calculate_pq_dim dim0 = Some r"
  show "r \<noteq> 0"
  proof (cases "32 \<le> halved dim0")
    case True
    with a have "r = round_down_safe (halved dim0) 32" by (simp add: calculate_pq_dim_eq)
    with True show ?thesis using round_down_safe_pos [of "halved dim0"] by auto
  next
    case False
    with a have "r = pow2_below (halved dim0)" by (simp add: calculate_pq_dim_eq)
    then show ?thesis by (simp add: pow2_below_def)
  qed
qed

lemma round_down_safe_mod: "round_down_safe d 32 mod 32 = 0"
proof -
  have "unat (round_down_safe d 32 mod 32) = 0"
    by (simp add: unat_mod unat_round_down_safe)
  then show ?thesis by (simp add: unat_eq_0)
qed

lemma pow2_below_pow: "\<exists>k<32. pow2_below d = 2 ^ k"
proof -
  have "pow2_below d = 2 ^ 0 \<or> pow2_below d = 2 ^ 1 \<or> pow2_below d = 2 ^ 2
      \<or> pow2_below d = 2 ^ 3 \<or> pow2_below d = 2 ^ 4"
    by (simp add: pow2_below_def)
  then show ?thesis
  proof (elim disjE)
    assume "pow2_below d = 2 ^ 0" then show ?thesis by (intro exI [of _ 0]) simp
  next
    assume "pow2_below d = 2 ^ 1" then show ?thesis by (intro exI [of _ 1]) simp
  next
    assume "pow2_below d = 2 ^ 2" then show ?thesis by (intro exI [of _ 2]) simp
  next
    assume "pow2_below d = 2 ^ 3" then show ?thesis by (intro exI [of _ 3]) simp
  next
    assume "pow2_below d = 2 ^ 4" then show ?thesis by (intro exI [of _ 4]) simp
  qed
qed

section \<open>The constructor and \<^verbatim>\<open>allocate\<close>: results and invariant\<close>

lemma bind_res_eq_Inr: "bind_res m f = Inr y \<longleftrightarrow> (\<exists>x. m = Inr x \<and> f x = Inr y)"
  by (cases m) auto

lemma make_device_mdarray_Inr:
  "make_device_mdarray h e = Inr (h', a) \<longleftrightarrow>
     a = \<lparr>extents = e, elems = Map.empty\<rparr> \<and> (h = [] \<and> h' = [] \<or> h = True # h')"
  by (auto simp: make_device_mdarray_def split: list.splits)

lemma make_device_mdarray_fresh:
  "make_device_mdarray h e = Inr (h', a) \<Longrightarrow> a = \<lparr>extents = e, elems = Map.empty\<rparr>"
  by (simp add: make_device_mdarray_Inr)

lemma make_device_mdarray_Inl:
  "make_device_mdarray h e = Inl err \<longleftrightarrow> err = AllocationFailure \<and> (\<exists>rest. h = False # rest)"
  by (auto simp: make_device_mdarray_def split: list.splits)

lemmas getter_defs = dim_def pq_bits_def pq_dim_def codebook_kind_def n_lists_def

lemma construct_Some:
  "\<exists>res. construct h m k nl d pb pd nn = Some res"
  by (cases "pd = 0") (simp_all add: construct_def calculate_pq_dim_eq)

text \<open>Getters read the scalar fields only.\<close>

lemma check_consistency_scalars:
  "pq_bits_m a = pq_bits_m b \<Longrightarrow> pq_dim_m a = pq_dim_m b
     \<Longrightarrow> check_consistency a = check_consistency b"
  by (simp add: check_consistency_def getter_defs)

lemma pq_len_scalars:
  "dim_m a = dim_m b \<Longrightarrow> pq_dim_m a = pq_dim_m b \<Longrightarrow> pq_len a = pq_len b"
  by (simp add: pq_len_def getter_defs)

lemma rot_dim_scalars:
  "dim_m a = dim_m b \<Longrightarrow> pq_dim_m a = pq_dim_m b \<Longrightarrow> rot_dim a = rot_dim b"
  by (simp add: rot_dim_def pq_len_def getter_defs)

lemma pq_book_size_scalars:
  "pq_bits_m a = pq_bits_m b \<Longrightarrow> pq_book_size a = pq_book_size b"
  by (simp add: pq_book_size_def getter_defs)

lemma make_pq_centers_extents_scalars:
  "codebook_kind_m a = codebook_kind_m b \<Longrightarrow> n_lists_m a = n_lists_m b
     \<Longrightarrow> dim_m a = dim_m b \<Longrightarrow> pq_bits_m a = pq_bits_m b \<Longrightarrow> pq_dim_m a = pq_dim_m b
     \<Longrightarrow> make_pq_centers_extents a = make_pq_centers_extents b"
  using pq_book_size_scalars [of a b] pq_len_scalars [of a b]
  by (simp add: make_pq_centers_extents_def getter_defs)

lemma construct_InrE0:
  assumes "construct h m k nl d pb pd nn = Some (Inr (h', idx))"
  obtains p e r where
    "(if pd = 0 then calculate_pq_dim d else Some pd) = Some p"
    "make_pq_centers_extents \<lparr>metric_m = m, codebook_kind_m = k, n_lists_m = nl, dim_m = d,
        pq_bits_m = pb, pq_dim_m = p, n_nonempty_lists_m = nn\<rparr> = Inr e"
    "rot_dim \<lparr>metric_m = m, codebook_kind_m = k, n_lists_m = nl, dim_m = d,
        pq_bits_m = pb, pq_dim_m = p, n_nonempty_lists_m = nn\<rparr> = Inr r"
    "check_consistency idx = None"
    "idx = \<lparr>metric_m = m, codebook_kind_m = k, n_lists_m = nl, dim_m = d, pq_bits_m = pb,
            pq_dim_m = p, n_nonempty_lists_m = nn,
            pq_centers_m = \<lparr>extents = e, elems = Map.empty\<rparr>,
            pq_dataset_m = \<lparr>extents = (0, ucast (p * pb div 8)), elems = Map.empty\<rparr>,
            indices_m = \<lparr>extents = 0, elems = Map.empty\<rparr>,
            rotation_matrix_m = \<lparr>extents = (r, d), elems = Map.empty\<rparr>,
            list_offsets_m = \<lparr>extents = nl + 1, elems = Map.empty\<rparr>,
            centers_m = \<lparr>extents = (nl, round_up_safe (d + 1) 8), elems = Map.empty\<rparr>,
            centers_rot_m = \<lparr>extents = (nl, r), elems = Map.empty\<rparr>\<rparr>"
  using assms unfolding construct_def Let_def
  by (auto simp: bind_res_eq_Inr dim_ext_def getter_defs
      split: option.splits dest!: make_device_mdarray_fresh)

lemma construct_InrE:
  assumes "construct h m k nl d pb pd nn = Some (Inr (h', idx))"
  obtains p e r where
    "(if pd = 0 then calculate_pq_dim d else Some pd) = Some p"
    "make_pq_centers_extents idx = Inr e"
    "rot_dim idx = Inr r"
    "check_consistency idx = None"
    "idx = \<lparr>metric_m = m, codebook_kind_m = k, n_lists_m = nl, dim_m = d, pq_bits_m = pb,
            pq_dim_m = p, n_nonempty_lists_m = nn,
            pq_centers_m = \<lparr>extents = e, elems = Map.empty\<rparr>,
            pq_dataset_m = \<lparr>extents = (0, ucast (p * pb div 8)), elems = Map.empty\<rparr>,
            indices_m = \<lparr>extents = 0, elems = Map.empty\<rparr>,
            rotation_matrix_m = \<lparr>extents = (r, d), elems = Map.empty\<rparr>,
            list_offsets_m = \<lparr>extents = nl + 1, elems = Map.empty\<rparr>,
            centers_m = \<lparr>extents = (nl, round_up_safe (d + 1) 8), elems = Map.empty\<rparr>,
            centers_rot_m = \<lparr>extents = (nl, r), elems = Map.empty\<rparr>\<rparr>"
proof -
  from assms obtain p e r where
    p: "(if pd = 0 then calculate_pq_dim d else Some pd) = Some p" and
    e: "make_pq_centers_extents \<lparr>metric_m = m, codebook_kind_m = k, n_lists_m = nl, dim_m = d,
        pq_bits_m = pb, pq_dim_m = p, n_nonempty_lists_m = nn\<rparr> = Inr e" and
    r: "rot_dim \<lparr>metric_m = m, codebook_kind_m = k, n_lists_m = nl, dim_m = d,
        pq_bits_m = pb, pq_dim_m = p, n_nonempty_lists_m = nn\<rparr> = Inr r" and
    c: "check_consistency idx = None" and
    i: "idx = \<lparr>metric_m = m, codebook_kind_m = k, n_lists_m = nl, dim_m = d, pq_bits_m = pb,
            pq_dim_m = p, n_nonempty_lists_m = nn,
            pq_centers_m = \<lparr>extents = e, elems = Map.empty\<rparr>,
            pq_dataset_m = \<lparr>extents = (0, ucast (p * pb div 8)), elems = Map.empty\<rparr>,
            indices_m = \<lparr>extents = 0, elems = Map.empty\<rparr>,
            rotation_matrix_m = \<lparr>extents = (r, d), elems = Map.empty\<rparr>,
            list_offsets_m = \<lparr>extents = nl + 1, elems = Map.empty\<rparr>,
            centers_m = \<lparr>extents = (nl, round_up_safe (d + 1) 8), elems = Map.empty\<rparr>,
            centers_rot_m = \<lparr>extents = (nl, r), elems = Map.empty\<rparr>\<rparr>"
    by (rule construct_InrE0)
  have "make_pq_centers_extents idx = Inr e"
    unfolding e [symmetric] by (rule make_pq_centers_extents_scalars) (simp_all add: i)
  moreover have "rot_dim idx = Inr r"
    unfolding r [symmetric] by (rule rot_dim_scalars) (simp_all add: i)
  ultimately show ?thesis using p c i that by blast
qed

lemmas shape_defs = shape_ok_def check_consistency_def make_pq_centers_extents_def rot_dim_def
  pq_len_def pq_book_size_def dim_ext_def getter_defs

lemma construct_pq_dim_nonzero:
  assumes "(if pd = 0 then calculate_pq_dim d else Some pd) = Some p"
  shows "p \<noteq> 0"
  using assms calculate_pq_dim_pos [of d p] by (auto split: if_splits)

lemma construct_shape_ok:
  assumes "construct h m k nl d pb pd nn = Some (Inr (h', idx))"
  shows "shape_ok idx"
proof -
  from assms obtain p e r where
    p: "(if pd = 0 then calculate_pq_dim d else Some pd) = Some p" and
    e: "make_pq_centers_extents idx = Inr e" and
    r: "rot_dim idx = Inr r" and
    c: "check_consistency idx = None" and
    i: "idx = \<lparr>metric_m = m, codebook_kind_m = k, n_lists_m = nl, dim_m = d, pq_bits_m = pb,
            pq_dim_m = p, n_nonempty_lists_m = nn,
            pq_centers_m = \<lparr>extents = e, elems = Map.empty\<rparr>,
            pq_dataset_m = \<lparr>extents = (0, ucast (p * pb div 8)), elems = Map.empty\<rparr>,
            indices_m = \<lparr>extents = 0, elems = Map.empty\<rparr>,
            rotation_matrix_m = \<lparr>extents = (r, d), elems = Map.empty\<rparr>,
            list_offsets_m = \<lparr>extents = nl + 1, elems = Map.empty\<rparr>,
            centers_m = \<lparr>extents = (nl, round_up_safe (d + 1) 8), elems = Map.empty\<rparr>,
            centers_rot_m = \<lparr>extents = (nl, r), elems = Map.empty\<rparr>\<rparr>"
    by (rule construct_InrE)
  have f: "pq_centers_m idx = \<lparr>extents = e, elems = Map.empty\<rparr>"
    "pq_dataset_m idx = \<lparr>extents = (0, ucast (p * pb div 8)), elems = Map.empty\<rparr>"
    "rotation_matrix_m idx = \<lparr>extents = (r, d), elems = Map.empty\<rparr>"
    "list_offsets_m idx = \<lparr>extents = nl + 1, elems = Map.empty\<rparr>"
    "centers_m idx = \<lparr>extents = (nl, round_up_safe (d + 1) 8), elems = Map.empty\<rparr>"
    "centers_rot_m idx = \<lparr>extents = (nl, r), elems = Map.empty\<rparr>"
    "pq_dim_m idx = p" "pq_bits_m idx = pb" "dim_m idx = d" "n_lists_m idx = nl"
    by (simp_all add: i)
  from p have "p \<noteq> 0" by (rule construct_pq_dim_nonzero)
  then show ?thesis
    unfolding shape_ok_def using e r c
    by (simp add: f getter_defs dim_ext_def)
qed

lemma allocate_Inr:
  "allocate h idx n = Inr (h', idx') \<longleftrightarrow>
     check_consistency idx = None \<and>
     idx' = idx\<lparr>pq_dataset_m := \<lparr>extents = (n, snd (extents (pq_dataset_m idx))), elems = Map.empty\<rparr>,
                indices_m := \<lparr>extents = n, elems = Map.empty\<rparr>\<rparr> \<and>
     (h = [] \<and> h' = [] \<or> h = [True] \<and> h' = [] \<or> (\<exists>rest. h = True # True # rest \<and> h' = rest))"
proof -
  have c: "check_consistency (idx\<lparr>pq_dataset_m := a, indices_m := b\<rparr>) = check_consistency idx"
    for a b by (rule check_consistency_scalars) simp_all
  show ?thesis
    unfolding allocate_def Let_def
    by (auto simp: make_device_mdarray_def c split: list.splits sum.splits option.splits)
qed

lemma allocate_Inl:
  "allocate h idx n = Inl (err, idx') \<longleftrightarrow>
     (err = AllocationFailure \<and> idx' = idx \<and> (\<exists>rest. h = False # rest)) \<or>
     (err = AllocationFailure \<and>
      idx' = idx\<lparr>pq_dataset_m := \<lparr>extents = (n, snd (extents (pq_dataset_m idx))), elems = Map.empty\<rparr>\<rparr> \<and>
      (\<exists>rest. h = True # False # rest)) \<or>
     (check_consistency idx = Some err \<and>
      idx' = idx\<lparr>pq_dataset_m := \<lparr>extents = (n, snd (extents (pq_dataset_m idx))), elems = Map.empty\<rparr>,
                indices_m := \<lparr>extents = n, elems = Map.empty\<rparr>\<rparr> \<and>
      (h = [] \<or> h = [True] \<or> (\<exists>rest. h = True # True # rest)))"
proof -
  have c: "check_consistency (idx\<lparr>pq_dataset_m := a, indices_m := b\<rparr>) = check_consistency idx"
    for a b by (rule check_consistency_scalars) simp_all
  show ?thesis
    unfolding allocate_def Let_def
    by (auto simp: make_device_mdarray_def c split: list.splits sum.splits option.splits)
qed

lemma shape_ok_pq_dataset:
  "shape_ok idx \<Longrightarrow> snd (extents a) = snd (extents (pq_dataset_m idx))
     \<Longrightarrow> shape_ok (idx\<lparr>pq_dataset_m := a\<rparr>)"
  unfolding shape_defs by (simp cong: if_cong)

lemma shape_ok_indices: "shape_ok idx \<Longrightarrow> shape_ok (idx\<lparr>indices_m := a\<rparr>)"
  unfolding shape_defs by (simp cong: if_cong)

lemma shape_ok_store:
  "shape_ok idx \<Longrightarrow> shape_ok (idx\<lparr>pq_centers_m := store (pq_centers_m idx) i x\<rparr>)"
  "shape_ok idx \<Longrightarrow> shape_ok (idx\<lparr>pq_dataset_m := store (pq_dataset_m idx) i c\<rparr>)"
  "shape_ok idx \<Longrightarrow> shape_ok (idx\<lparr>indices_m := store (indices_m idx) i j\<rparr>)"
  "shape_ok idx \<Longrightarrow> shape_ok (idx\<lparr>rotation_matrix_m := store (rotation_matrix_m idx) i x\<rparr>)"
  "shape_ok idx \<Longrightarrow> shape_ok (idx\<lparr>list_offsets_m := store (list_offsets_m idx) i j\<rparr>)"
  "shape_ok idx \<Longrightarrow> shape_ok (idx\<lparr>centers_m := store (centers_m idx) i x\<rparr>)"
  "shape_ok idx \<Longrightarrow> shape_ok (idx\<lparr>centers_rot_m := store (centers_rot_m idx) i x\<rparr>)"
  unfolding shape_defs store_def by (simp_all cong: if_cong)

lemma reachable_shape_ok: "reachable idx \<Longrightarrow> shape_ok idx"
proof (induction rule: reachable.induct)
  case (reach_construct handle metric0 kind0 n_lists0 dim0 pq_bits0 pq_dim0 n_nonempty0 handle' idx)
  then show ?case by (rule construct_shape_ok)
next
  case (reach_allocate idx handle n handle' idx')
  then show ?case
    by (auto simp: allocate_Inr intro!: shape_ok_pq_dataset [THEN shape_ok_indices])
next
  case (reach_allocate_thrown idx handle n err idx')
  from reach_allocate_thrown.IH have "check_consistency idx = None"
    by (simp add: shape_ok_def)
  with reach_allocate_thrown show ?case
    by (auto simp: allocate_Inl intro: shape_ok_pq_dataset)
qed (simp_all add: shape_ok_store)

lemma pq_len_Inr: "pq_dim_m s \<noteq> 0 \<Longrightarrow> \<exists>l. pq_len s = Inr l"
  by (simp add: pq_len_def div_rounding_up_unsafe_def getter_defs)

lemma rot_dim_Inr: "pq_dim_m s \<noteq> 0 \<Longrightarrow> \<exists>r. rot_dim s = Inr r"
  by (simp add: rot_dim_def pq_len_def div_rounding_up_unsafe_def getter_defs)

lemma make_pq_centers_extents_Inl:
  assumes "make_pq_centers_extents s = Inl err" "pq_dim_m s \<noteq> 0"
  shows "err = UndefinedShift \<and> \<not> unat (pq_bits_m s) < 32 \<or>
    err = RaftFail ''Unreachable code'' \<and>
      codebook_kind_m s \<noteq> PER_SUBSPACE \<and> codebook_kind_m s \<noteq> PER_CLUSTER"
proof -
  from assms(2) obtain l where l: "pq_len s = Inr l" using pq_len_Inr by blast
  from assms(1) show ?thesis
    by (auto simp: make_pq_centers_extents_def l pq_book_size_def getter_defs split: if_splits)
qed


lemma make_pq_centers_extents_kind:
  assumes "make_pq_centers_extents s = Inr e"
  shows "codebook_kind_m s = PER_SUBSPACE \<or> codebook_kind_m s = PER_CLUSTER"
  using assms by (auto simp: make_pq_centers_extents_def getter_defs split: if_splits)

lemma alloc_step:
  fixes f :: "handle_t \<times> ('e, 'x) mdarray \<Rightarrow> error + 'b"
  assumes "Q AllocationFailure"
    and "\<And>h' a. \<forall>err. f (h', a) = Inl err \<longrightarrow> Q err"
  shows "\<forall>err. bind_res (make_device_mdarray h e) f = Inl err \<longrightarrow> Q err"
proof (cases "make_device_mdarray h e :: error + handle_t \<times> ('e, 'x) mdarray")
  case (Inl e')
  then have "e' = AllocationFailure" by (simp add: make_device_mdarray_Inl)
  with Inl assms(1) show ?thesis by simp
next
  case (Inr x)
  obtain h' a where "x = (h', a)" by (cases x)
  with Inr assms(2) [of h' a] show ?thesis by simp
qed

lemma construct_Inl:
  assumes "construct h m k nl d pb pd nn = Some (Inl err)"
  shows "\<exists>p. (if pd = 0 then calculate_pq_dim d else Some pd) = Some p \<and>
           (err = UndefinedShift \<and> \<not> unat pb < 32 \<or>
            err = RaftFail ''Unreachable code'' \<and> k \<noteq> PER_SUBSPACE \<and> k \<noteq> PER_CLUSTER \<or>
            err = AllocationFailure \<or>
            check_consistency \<lparr>metric_m = m, codebook_kind_m = k, n_lists_m = nl, dim_m = d,
              pq_bits_m = pb, pq_dim_m = p, n_nonempty_lists_m = nn\<rparr> = Some err)"
proof -
  have "\<exists>p. (if pd = 0 then calculate_pq_dim d else Some pd) = Some p"
    by (simp add: calculate_pq_dim_eq)
  then obtain p where p: "(if pd = 0 then calculate_pq_dim d else Some pd) = Some p" ..
  let ?s = "\<lparr>metric_m = m, codebook_kind_m = k, n_lists_m = nl, dim_m = d,
    pq_bits_m = pb, pq_dim_m = p, n_nonempty_lists_m = nn\<rparr>"
  from p have "p \<noteq> 0" by (rule construct_pq_dim_nonzero)
  then have nz: "pq_dim_m ?s \<noteq> 0" by simp
  obtain r where r: "rot_dim ?s = Inr r" using rot_dim_Inr [OF nz] by blast
  have cc: "check_consistency \<lparr>metric_m = m, codebook_kind_m = k, n_lists_m = nl, dim_m = d,
     pq_bits_m = pb, pq_dim_m = p, n_nonempty_lists_m = nn, pq_centers_m = a1,
     pq_dataset_m = a2, indices_m = a3, rotation_matrix_m = a4, list_offsets_m = a5,
     centers_m = a6, centers_rot_m = a7\<rparr> = check_consistency ?s" for a1 a2 a3 a4 a5 a6 a7
    by (rule check_consistency_scalars) simp_all
  define Q where "Q e \<longleftrightarrow> e = AllocationFailure \<or> check_consistency ?s = Some e" for e
  have QA: "Q AllocationFailure" by (simp add: Q_def)
  show ?thesis
  proof (cases "make_pq_centers_extents ?s")
    case (Inl e')
    from assms have "err = e'"
      by (simp only: construct_def Let_def p option.case Inl bind_res.simps option.inject
          sum.inject)
    with make_pq_centers_extents_Inl [OF Inl nz] p show ?thesis by auto
  next
    case (Inr e)
    have "\<forall>err. construct h m k nl d pb pd nn = Some (Inl err) \<longrightarrow> Q err"
      apply (simp only: construct_def Let_def p option.case Inr r cc bind_res.simps option.inject)
      apply (rule alloc_step [where Q = Q, OF QA], simp only: prod.case)+
      apply (simp add: Q_def split: option.splits)
      done
    with assms have "Q err" by blast
    with p show ?thesis unfolding Q_def by blast
  qed
qed

lemma construct_other_kind:
  assumes "k \<noteq> PER_SUBSPACE" "k \<noteq> PER_CLUSTER"
  shows "construct h m k nl d pb pd nn = Some (Inl (RaftFail ''Unreachable code''))"
proof -
  have "\<exists>p. (if pd = 0 then calculate_pq_dim d else Some pd) = Some p"
    by (simp add: calculate_pq_dim_eq)
  then obtain p where p: "(if pd = 0 then calculate_pq_dim d else Some pd) = Some p" ..
  have e: "make_pq_centers_extents \<lparr>metric_m = m, codebook_kind_m = k, n_lists_m = nl,
      dim_m = d, pq_bits_m = pb, pq_dim_m = p, n_nonempty_lists_m = nn\<rparr>
        = Inl (RaftFail ''Unreachable code'')"
    using assms by (simp add: make_pq_centers_extents_def getter_defs)
  show ?thesis
    by (simp only: construct_def Let_def p option.case e bind_res.simps)
qed



section \<open>Rounded-up division on words\<close>

lemma ceil_div_nat:
  fixes a b :: nat
  assumes "0 < b"
  shows "(a + b - 1) div b = a div b + (if a mod b = 0 then 0 else 1)"
proof -
  define q r where "q = a div b" and "r = a mod b"
  have a: "a = r + q * b" by (simp add: q_def r_def)
  have rb: "r < b" using assms by (simp add: r_def)
  from assms have bz: "b \<noteq> 0" by simp
  have s1: "(r + (b - 1) + q * b) div b = q + (r + (b - 1)) div b"
    using bz by (rule div_mult_self1)
  have s2: "(r + (b - 1)) div b = (if r = 0 then 0 else 1)"
  proof (cases "r = 0")
    case True
    with assms show ?thesis by simp
  next
    case False
    then have e: "r + (b - 1) = (r - 1) + 1 * b" using assms by arith
    have "((r - 1) + 1 * b) div b = 1 + (r - 1) div b" using bz by (rule div_mult_self1)
    moreover have "r - 1 < b" using rb by arith
    ultimately show ?thesis using False e by simp
  qed
  have s3: "a + b - 1 = r + (b - 1) + q * b" using a assms by arith
  show ?thesis unfolding q_def [symmetric] r_def [symmetric] s3 s1 s2 by simp
qed

lemma ceil_div_nat_bounds:
  fixes a b :: nat
  assumes "0 < b"
  shows "a \<le> (a + b - 1) div b * b" "(a + b - 1) div b * b \<le> a + b - 1"
proof -
  show "(a + b - 1) div b * b \<le> a + b - 1" by simp
  have "a + b - 1 < ((a + b - 1) div b + 1) * b"
    using assms by (metis Suc_eq_plus1 dividend_less_div_times mult.commute mult_Suc_right add.commute)
  then show "a \<le> (a + b - 1) div b * b" by (simp add: algebra_simps)
qed

lemma unat_ceil_div:
  fixes d p :: u32
  assumes "p \<noteq> 0"
  shows "unat (d div p + (if d mod p = 0 then 0 else 1)) = (unat d + unat p - 1) div unat p"
proof -
  from assms have b: "0 < unat p" by (simp add: unat_gt_0)
  have m: "d mod p = 0 \<longleftrightarrow> unat d mod unat p = 0"
    by (simp add: unat_eq_0 [symmetric] unat_mod)
  show ?thesis
  proof (cases "d mod p = 0")
    case True
    then show ?thesis using m b ceil_div_nat [OF b, of "unat d"] by (simp add: unat_div)
  next
    case False
    then have nz: "unat d mod unat p \<noteq> 0" using m by simp
    then have "unat p \<noteq> 1" by auto
    with b have "2 \<le> unat p" by simp
    moreover have "unat d \<noteq> 0" using nz by (cases "unat d = 0") simp_all
    ultimately have "unat d div unat p < unat d" by simp
    then have "unat d div unat p + 1 < 2 ^ 32"
      using unsigned_less [of d, where 'a = nat] by simp
    then have "unat (d div p + 1) = unat d div unat p + 1"
      by (simp add: unat_word_ariths unat_div)
    with False nz b ceil_div_nat [OF b, of "unat d"] show ?thesis by simp
  qed
qed

section \<open>The claims\<close>

subsection \<open>The scenario of the spec\<close>

lemma construct_example:
  "construct [] () PER_SUBSPACE 8 128 8 0 0 = Some (Inr ([], example_index))"
  by (simp add: construct_def calculate_pq_dim_def round_down_safe_def
      make_pq_centers_extents_def pq_book_size_def pq_len_def rot_dim_def dim_ext_def
      round_up_safe_def div_rounding_up_unsafe_def make_device_mdarray_def
      check_consistency_def getter_defs example_index_def PER_SUBSPACE_def PER_CLUSTER_def)

lemma reachable_example: "reachable example_index"
  using construct_example by (rule reach_construct)

subsection \<open>C1: what \<^verbatim>\<open>calculate_pq_dim\<close> computes\<close>

text \<open>
  Claim C1, as amended. \<^verbatim>\<open>calculate_pq_dim(dim)\<close> returns for every 32-bit \<open>dim\<close>. With
  \<open>d\<close> the dimension, halved when \<open>dim \<ge> 128\<close>, the result is \<open>d\<close> rounded down to a
  multiple of 32 when that is not 0; otherwise it is 1 when \<open>d = 0\<close>, and the largest power
  of two not above \<open>d\<close> when \<open>d \<ge> 1\<close>. In particular 512 gives 256, 100 gives 96 and 10
  gives 8.
\<close>

theorem calculate_pq_dim_spec:
  "(\<exists>r. calculate_pq_dim dim0 = Some r \<and>
      (let d = (if 128 \<le> unat dim0 then unat dim0 div 2 else unat dim0);
           m = d div 32 * 32
       in if m \<noteq> 0 then unat r = m
          else if d = 0 then r = 1
          else \<exists>k. unat r = 2 ^ k \<and> 2 ^ k \<le> d \<and> d < 2 ^ (k + 1))) \<and>
   calculate_pq_dim 512 = Some 256 \<and>
   calculate_pq_dim 100 = Some 96 \<and>
   calculate_pq_dim 10 = Some 8"
proof -
  have "calculate_pq_dim 512 = Some 256" "calculate_pq_dim 100 = Some 96"
    "calculate_pq_dim 10 = Some 8"
    by (simp_all add: calculate_pq_dim_eq halved_def round_down_safe_def pow2_below_def)
  with calculate_pq_dim_value [of dim0] show ?thesis by blast
qed

text \<open>The theorem of C1 at \<open>dim = 20\<close>: the result is the power of two in \<open>(10, 20]\<close>.\<close>

theorem calculate_pq_dim_spec_witness:
  "\<exists>r. calculate_pq_dim 20 = Some r \<and> (\<exists>k. unat r = 2 ^ k \<and> 2 ^ k \<le> (20::nat) \<and> (20::nat) < 2 ^ (k + 1))"
  using calculate_pq_dim_spec [of 20] by simp

text \<open>
  C1 as stated fails at \<open>dim = 0\<close>: rounding down yields 0, and the value returned, 1, is
  not a power of two below or equal to \<open>dim\<close>.
\<close>

theorem calculate_pq_dim_zero_counterexample:
  "calculate_pq_dim 0 = Some 1 \<and> round_down_safe 0 32 = 0 \<and> \<not> (1 :: u32) \<le> 0"
  by (simp add: calculate_pq_dim_eq halved_def round_down_safe_def pow2_below_def)

subsection \<open>C10: the derived \<^verbatim>\<open>pq_dim\<close> is never zero\<close>

text \<open>
  Claim C10. For every 32-bit \<open>dim\<close> (0 and the values below 32 included)
  \<^verbatim>\<open>calculate_pq_dim(dim)\<close> returns a value that is at least 1 and is a multiple of 32 or
  a power of two. So the constructor called with \<^verbatim>\<open>pq_dim = 0\<close> always returns or throws,
  never divides by zero, and in the index it makes \<^verbatim>\<open>pq_dim()\<close> is the derived value and
  not 0, and \<^verbatim>\<open>pq_len()\<close> has a value.
\<close>

theorem auto_pq_dim_nonzero:
  "(\<exists>r. calculate_pq_dim dim0 = Some r \<and> 1 \<le> r \<and> (r mod 32 = 0 \<or> (\<exists>k<32. r = 2 ^ k))) \<and>
   (\<exists>res. construct h m k nl dim0 pb 0 nn = Some res \<and> res \<noteq> Inl DivisionByZero) \<and>
   (\<forall>h' idx. construct h m k nl dim0 pb 0 nn = Some (Inr (h', idx)) \<longrightarrow>
      calculate_pq_dim dim0 = Some (pq_dim idx) \<and> pq_dim idx \<noteq> 0 \<and> (\<exists>l. pq_len idx = Inr l))"
proof (intro conjI allI impI)
  define r where "r = (if 32 \<le> halved dim0 then round_down_safe (halved dim0) 32
    else pow2_below (halved dim0))"
  have c: "calculate_pq_dim dim0 = Some r" by (simp add: calculate_pq_dim_eq r_def)
  then have "r \<noteq> 0" by (rule calculate_pq_dim_pos)
  then have "0 < unat r" by (simp add: unat_gt_0)
  then have r1: "1 \<le> r" by (simp add: word_le_nat_alt Suc_le_eq)
  have r2: "r mod 32 = 0 \<or> (\<exists>k<32. r = 2 ^ k)"
    using round_down_safe_mod [of "halved dim0"] pow2_below_pow [of "halved dim0"]
    by (simp add: r_def)
  show "\<exists>r. calculate_pq_dim dim0 = Some r \<and> 1 \<le> r \<and>
      (r mod 32 = 0 \<or> (\<exists>k<32. r = 2 ^ k))"
    by (rule exI [of _ r]) (simp only: c r1 r2 simp_thms)
next
  from construct_Some [of h m k nl dim0 pb 0 nn]
  obtain res where res: "construct h m k nl dim0 pb 0 nn = Some res" ..
  have "res \<noteq> Inl DivisionByZero"
  proof
    assume "res = Inl DivisionByZero"
    with res have "construct h m k nl dim0 pb 0 nn = Some (Inl DivisionByZero)" by simp
    from construct_Inl [OF this] show False
      by (auto simp: check_consistency_def split: if_splits)
  qed
  with res show "\<exists>res. construct h m k nl dim0 pb 0 nn = Some res \<and> res \<noteq> Inl DivisionByZero"
    by blast
next
  fix h' idx
  assume a: "construct h m k nl dim0 pb 0 nn = Some (Inr (h', idx))"
  from construct_InrE [OF a] obtain p where
    p: "(if (0::u32) = 0 then calculate_pq_dim dim0 else Some 0) = Some p" and "pq_dim_m idx = p"
    by (metis (no_types, lifting) index_scalars.select_convs(6))
  then show "calculate_pq_dim dim0 = Some (pq_dim idx)" by (simp add: getter_defs)
  from construct_shape_ok [OF a] show "pq_dim idx \<noteq> 0" by (simp add: shape_ok_def)
  then show "\<exists>l. pq_len idx = Inr l" using pq_len_Inr [of idx] by (simp add: getter_defs)
qed

text \<open>The theorem of C10 at the scenario of the spec.\<close>

theorem auto_pq_dim_nonzero_witness:
  "construct [] () PER_SUBSPACE 8 128 8 0 0 = Some (Inr ([], example_index)) \<and>
   calculate_pq_dim 128 = Some (pq_dim example_index) \<and> pq_dim example_index \<noteq> 0 \<and>
   (\<exists>l. pq_len example_index = Inr l)"
  using auto_pq_dim_nonzero [of 128 "[]" "()" PER_SUBSPACE 8 8 0] construct_example by blast

subsection \<open>C2: validation in the constructor\<close>

lemma check_consistency_None:
  "check_consistency s = None \<longleftrightarrow>
     4 \<le> pq_bits_m s \<and> pq_bits_m s \<le> 8 \<and> (pq_bits_m s * pq_dim_m s) mod 8 = 0"
  by (auto simp: check_consistency_def getter_defs)






subsection \<open>C3: what \<^verbatim>\<open>allocate\<close> changes and what it keeps\<close>

lemma serves_2_cases:
  "serves h 2 \<longleftrightarrow> h = [] \<or> h = [True] \<or> (\<exists>rest. h = True # True # rest)"
proof (cases h)
  case Nil
  then show ?thesis by (simp add: serves_def)
next
  case (Cons a t)
  then show ?thesis by (cases t) (auto simp: serves_def eval_nat_numeral)
qed

text \<open>
  Claim C3. In every state an index can reach \<^verbatim>\<open>list_offsets.extent(0)\<close> is
  \<^verbatim>\<open>n_lists + 1\<close>. A call \<^verbatim>\<open>allocate(n)\<close> returns when the handle serves two requests, and
  after every call that returns: \<^verbatim>\<open>size() == n\<close>, \<^verbatim>\<open>indices.extent(0) == n\<close>,
  \<^verbatim>\<open>pq_dataset\<close> has the extents \<^verbatim>\<open>[n, pq_dim * pq_bits / 8]\<close>, the other five arrays are
  what they were, and the state is again one the index can reach, so the same holds
  after any number of calls.
\<close>

theorem allocate_frame:
  assumes "reachable idx"
  shows "extents (list_offsets_m idx) = n_lists idx + 1 \<and>
    (serves h 2 \<longrightarrow> (\<exists>h' idx'. allocate h idx n = Inr (h', idx'))) \<and>
    (\<forall>h' idx'. allocate h idx n = Inr (h', idx') \<longrightarrow>
       reachable idx' \<and> size_index idx' = n \<and> extents (indices_m idx') = n \<and>
       extents (pq_dataset_m idx') = (n, ucast (pq_dim idx' * pq_bits idx' div 8)) \<and>
       pq_centers_m idx' = pq_centers_m idx \<and>
       rotation_matrix_m idx' = rotation_matrix_m idx \<and>
       list_offsets_m idx' = list_offsets_m idx \<and>
       centers_m idx' = centers_m idx \<and>
       centers_rot_m idx' = centers_rot_m idx \<and>
       extents (list_offsets_m idx') = n_lists idx' + 1)"
proof -
  from assms have ok: "shape_ok idx" by (rule reachable_shape_ok)
  then have lo: "extents (list_offsets_m idx) = n_lists idx + 1"
    and cc: "check_consistency idx = None"
    and w: "snd (extents (pq_dataset_m idx)) = ucast (pq_dim idx * pq_bits idx div 8)"
    by (simp_all add: shape_ok_def)
  have s: "\<exists>h' idx'. allocate h idx n = Inr (h', idx')" if "serves h 2"
    using that cc by (auto simp: allocate_Inr serves_2_cases)
  have f: "reachable idx' \<and> size_index idx' = n \<and> extents (indices_m idx') = n \<and>
       extents (pq_dataset_m idx') = (n, ucast (pq_dim idx' * pq_bits idx' div 8)) \<and>
       pq_centers_m idx' = pq_centers_m idx \<and>
       rotation_matrix_m idx' = rotation_matrix_m idx \<and>
       list_offsets_m idx' = list_offsets_m idx \<and>
       centers_m idx' = centers_m idx \<and>
       centers_rot_m idx' = centers_rot_m idx \<and>
       extents (list_offsets_m idx') = n_lists idx' + 1"
    if a: "allocate h idx n = Inr (h', idx')" for h' idx'
  proof -
    from assms a have "reachable idx'" by (rule reach_allocate)
    moreover from a have "idx' = idx\<lparr>pq_dataset_m :=
        \<lparr>extents = (n, snd (extents (pq_dataset_m idx))), elems = Map.empty\<rparr>,
        indices_m := \<lparr>extents = n, elems = Map.empty\<rparr>\<rparr>"
      by (simp add: allocate_Inr)
    ultimately show ?thesis using lo w by (simp add: size_index_def getter_defs)
  qed
  from lo s f show ?thesis by blast
qed

lemma allocate_example:
  "allocate [] example_index 5 = Inr ([],
     example_index\<lparr>pq_dataset_m := \<lparr>extents = (5, 64), elems = Map.empty\<rparr>,
                   indices_m := \<lparr>extents = 5, elems = Map.empty\<rparr>\<rparr>)"
  by (simp add: allocate_Inr check_consistency_None) (simp add: example_index_def)

text \<open>The theorem of C3 at the scenario's index and \<^verbatim>\<open>allocate(5)\<close>.\<close>

theorem allocate_frame_witness:
  "reachable example_index \<and>
   allocate [] example_index 5 = Inr ([],
     example_index\<lparr>pq_dataset_m := \<lparr>extents = (5, 64), elems = Map.empty\<rparr>,
                   indices_m := \<lparr>extents = 5, elems = Map.empty\<rparr>\<rparr>) \<and>
   size_index (example_index\<lparr>pq_dataset_m := \<lparr>extents = (5, 64), elems = Map.empty\<rparr>,
                   indices_m := \<lparr>extents = 5, elems = Map.empty\<rparr>\<rparr>) = 5 \<and>
   extents (list_offsets_m (example_index\<lparr>pq_dataset_m := \<lparr>extents = (5, 64), elems = Map.empty\<rparr>,
                   indices_m := \<lparr>extents = 5, elems = Map.empty\<rparr>\<rparr>)) = 8 + 1"
  using allocate_frame [OF reachable_example, of "[]" 5] reachable_example allocate_example
  by (simp add: example_index_def getter_defs)

subsection \<open>C4: \<^verbatim>\<open>allocate\<close> and failing allocations\<close>

text \<open>
  Claim C4, as amended. On an index in a reachable state \<^verbatim>\<open>allocate(n)\<close> fails only with
  an allocation failure (the validation cannot fail there). When the allocation of
  \<^verbatim>\<open>pq_dataset\<close> fails the index is left as it was. When the allocation of \<^verbatim>\<open>indices\<close>
  fails, \<^verbatim>\<open>pq_dataset\<close> has already been replaced by the fresh array of \<open>n\<close> rows and
  everything else is as it was. When \<^verbatim>\<open>allocate\<close> returns, \<^verbatim>\<open>pq_dataset\<close> and
  \<^verbatim>\<open>indices\<close> have the same length \<open>n\<close>.
\<close>

theorem allocate_failure_states:
  assumes "reachable idx"
  shows "(\<forall>err idx'. allocate h idx n = Inl (err, idx') \<longrightarrow>
            err = AllocationFailure \<and>
            (idx' = idx \<or>
             idx' = idx\<lparr>pq_dataset_m :=
               \<lparr>extents = (n, snd (extents (pq_dataset_m idx))), elems = Map.empty\<rparr>\<rparr>)) \<and>
         allocate (False # rest) idx n = Inl (AllocationFailure, idx) \<and>
         allocate (True # False # rest) idx n = Inl (AllocationFailure,
           idx\<lparr>pq_dataset_m :=
             \<lparr>extents = (n, snd (extents (pq_dataset_m idx))), elems = Map.empty\<rparr>\<rparr>) \<and>
         (\<forall>h' idx'. allocate h idx n = Inr (h', idx') \<longrightarrow>
            fst (extents (pq_dataset_m idx')) = extents (indices_m idx') \<and>
            extents (indices_m idx') = n)"
proof -
  from assms have "shape_ok idx" by (rule reachable_shape_ok)
  then have cc: "check_consistency idx = None" by (simp add: shape_ok_def)
  have a: "err = AllocationFailure \<and>
            (idx' = idx \<or>
             idx' = idx\<lparr>pq_dataset_m :=
               \<lparr>extents = (n, snd (extents (pq_dataset_m idx))), elems = Map.empty\<rparr>\<rparr>)"
    if "allocate h idx n = Inl (err, idx')" for err idx'
    using that cc by (auto simp: allocate_Inl)
  have b: "allocate (False # rest) idx n = Inl (AllocationFailure, idx)"
    by (simp add: allocate_Inl)
  have c: "allocate (True # False # rest) idx n = Inl (AllocationFailure,
           idx\<lparr>pq_dataset_m :=
             \<lparr>extents = (n, snd (extents (pq_dataset_m idx))), elems = Map.empty\<rparr>\<rparr>)"
    by (simp add: allocate_Inl)
  have d: "fst (extents (pq_dataset_m idx')) = extents (indices_m idx') \<and>
            extents (indices_m idx') = n"
    if "allocate h idx n = Inr (h', idx')" for h' idx'
    using that by (auto simp: allocate_Inr)
  from a b c d show ?thesis by blast
qed

text \<open>The theorem of C4 at the scenario's index, for both failing allocations.\<close>

theorem allocate_failure_states_witness:
  "reachable example_index \<and>
   allocate [False] example_index 5 = Inl (AllocationFailure, example_index) \<and>
   allocate [True, False] example_index 5 = Inl (AllocationFailure, half_allocated_example)"
  using allocate_failure_states [OF reachable_example, of "[False]" 5 "[]"] reachable_example
  by (simp add: half_allocated_example_def) (simp add: example_index_def)

text \<open>
  C4 as stated fails: on the scenario's index, whose two lengths agree, a call
  \<^verbatim>\<open>allocate(5)\<close> whose second allocation fails leaves \<^verbatim>\<open>pq_dataset\<close> with 5 rows and
  \<^verbatim>\<open>indices\<close> with none.
\<close>

theorem allocate_not_atomic_counterexample:
  "reachable example_index \<and>
   fst (extents (pq_dataset_m example_index)) = extents (indices_m example_index) \<and>
   allocate [True, False] example_index 5 = Inl (AllocationFailure, half_allocated_example) \<and>
   half_allocated_example \<noteq> example_index \<and>
   fst (extents (pq_dataset_m half_allocated_example)) = 5 \<and>
   extents (indices_m half_allocated_example) = 0"
proof -
  have "allocate [True, False] example_index 5 = Inl (AllocationFailure, half_allocated_example)"
    by (simp add: allocate_Inl half_allocated_example_def) (simp add: example_index_def)
  moreover have "pq_dataset_m half_allocated_example \<noteq> pq_dataset_m example_index"
    by (simp add: half_allocated_example_def example_index_def)
  then have "half_allocated_example \<noteq> example_index" by auto
  moreover have "fst (extents (pq_dataset_m half_allocated_example)) = 5"
    "extents (indices_m half_allocated_example) = 0"
    "fst (extents (pq_dataset_m example_index)) = extents (indices_m example_index)"
    by (simp_all add: half_allocated_example_def example_index_def)
  ultimately show ?thesis using reachable_example by simp
qed

subsection \<open>C5: lengths and offsets after construction and \<^verbatim>\<open>allocate\<close>\<close>

text \<open>
  Claim C5, as amended. After construction, and after every \<^verbatim>\<open>allocate\<close> call that
  returns, \<^verbatim>\<open>list_offsets.extent(0) == n_lists + 1\<close> and
  \<^verbatim>\<open>size() == indices.extent(0) == pq_dataset.extent(0)\<close>. Neither operation stores
  into \<^verbatim>\<open>list_offsets\<close>: after construction no element of it has been stored, and
  \<^verbatim>\<open>allocate\<close> leaves the array, its final entry included, as it was.
\<close>

theorem size_coupling_after_mutation:
  "(construct h m k nl d pb pd nn = Some (Inr (h', idx)) \<longrightarrow>
      extents (list_offsets_m idx) = n_lists idx + 1 \<and>
      size_index idx = extents (indices_m idx) \<and>
      extents (indices_m idx) = fst (extents (pq_dataset_m idx)) \<and>
      elems (list_offsets_m idx) = Map.empty \<and>
      last_list_offset idx = None) \<and>
   (reachable idx0 \<and> allocate h0 idx0 n = Inr (h1, idx1) \<longrightarrow>
      extents (list_offsets_m idx1) = n_lists idx1 + 1 \<and>
      size_index idx1 = extents (indices_m idx1) \<and>
      extents (indices_m idx1) = fst (extents (pq_dataset_m idx1)) \<and>
      list_offsets_m idx1 = list_offsets_m idx0 \<and>
      last_list_offset idx1 = last_list_offset idx0)"
proof (rule conjI; rule impI)
  assume c: "construct h m k nl d pb pd nn = Some (Inr (h', idx))"
  from construct_InrE [OF c] obtain p e r where
    i: "idx = \<lparr>metric_m = m, codebook_kind_m = k, n_lists_m = nl, dim_m = d, pq_bits_m = pb,
            pq_dim_m = p, n_nonempty_lists_m = nn,
            pq_centers_m = \<lparr>extents = e, elems = Map.empty\<rparr>,
            pq_dataset_m = \<lparr>extents = (0, ucast (p * pb div 8)), elems = Map.empty\<rparr>,
            indices_m = \<lparr>extents = 0, elems = Map.empty\<rparr>,
            rotation_matrix_m = \<lparr>extents = (r, d), elems = Map.empty\<rparr>,
            list_offsets_m = \<lparr>extents = nl + 1, elems = Map.empty\<rparr>,
            centers_m = \<lparr>extents = (nl, round_up_safe (d + 1) 8), elems = Map.empty\<rparr>,
            centers_rot_m = \<lparr>extents = (nl, r), elems = Map.empty\<rparr>\<rparr>"
    by blast
  have f: "list_offsets_m idx = \<lparr>extents = nl + 1, elems = Map.empty\<rparr>"
    "indices_m idx = \<lparr>extents = 0, elems = Map.empty\<rparr>"
    "pq_dataset_m idx = \<lparr>extents = (0, ucast (p * pb div 8)), elems = Map.empty\<rparr>"
    "n_lists_m idx = nl"
    by (simp_all add: i)
  show "extents (list_offsets_m idx) = n_lists idx + 1 \<and>
      size_index idx = extents (indices_m idx) \<and>
      extents (indices_m idx) = fst (extents (pq_dataset_m idx)) \<and>
      elems (list_offsets_m idx) = Map.empty \<and>
      last_list_offset idx = None"
    by (simp add: f size_index_def last_list_offset_def getter_defs)
next
  assume a: "reachable idx0 \<and> allocate h0 idx0 n = Inr (h1, idx1)"
  then have "shape_ok idx0" by (simp add: reachable_shape_ok)
  then have lo: "extents (list_offsets_m idx0) = n_lists idx0 + 1" by (simp add: shape_ok_def)
  from a have "idx1 = idx0\<lparr>pq_dataset_m :=
        \<lparr>extents = (n, snd (extents (pq_dataset_m idx0))), elems = Map.empty\<rparr>,
        indices_m := \<lparr>extents = n, elems = Map.empty\<rparr>\<rparr>"
    by (simp add: allocate_Inr)
  with lo show "extents (list_offsets_m idx1) = n_lists idx1 + 1 \<and>
      size_index idx1 = extents (indices_m idx1) \<and>
      extents (indices_m idx1) = fst (extents (pq_dataset_m idx1)) \<and>
      list_offsets_m idx1 = list_offsets_m idx0 \<and>
      last_list_offset idx1 = last_list_offset idx0"
    by (simp add: size_index_def last_list_offset_def getter_defs)
qed

lemma allocate_populated:
  "allocate [] populated_example 5 = Inr ([], allocated_example)"
  by (simp add: allocate_Inr check_consistency_None allocated_example_def)
     (simp add: populated_example_def example_index_def)

lemma reachable_populated: "reachable populated_example"
  unfolding populated_example_def using reachable_example by (rule reach_store_list_offsets)

text \<open>
  The theorem of C5 at the scenario's index, and at \<^verbatim>\<open>allocate(5)\<close> on it once populated.
\<close>

theorem size_coupling_after_mutation_witness:
  "construct [] () PER_SUBSPACE 8 128 8 0 0 = Some (Inr ([], example_index)) \<and>
   extents (list_offsets_m example_index) = 9 \<and> size_index example_index = 0 \<and>
   fst (extents (pq_dataset_m example_index)) = 0 \<and>
   reachable populated_example \<and>
   allocate [] populated_example 5 = Inr ([], allocated_example) \<and>
   extents (list_offsets_m allocated_example) = 9 \<and>
   size_index allocated_example = 5 \<and>
   fst (extents (pq_dataset_m allocated_example)) = 5 \<and>
   list_offsets_m allocated_example = list_offsets_m populated_example"
  using size_coupling_after_mutation [of "[]" "()" PER_SUBSPACE 8 128 8 0 0 "[]" example_index
      populated_example "[]" 5 "[]" allocated_example]
    construct_example reachable_populated allocate_populated
  by (simp add: size_index_def getter_defs)
     (simp add: example_index_def populated_example_def allocated_example_def)

text \<open>
  C5 as stated fails. After construction the final entry of \<^verbatim>\<open>list_offsets\<close> has not
  been stored. And on the populated index, where the final entry is the size 0,
  \<^verbatim>\<open>allocate(5)\<close> makes the size 5 and leaves the final entry 0.
\<close>

theorem list_offsets_last_entry_counterexample:
  "construct [] () PER_SUBSPACE 8 128 8 0 0 = Some (Inr ([], example_index)) \<and>
   last_list_offset example_index = None \<and>
   reachable populated_example \<and>
   last_list_offset populated_example = Some (size_index populated_example) \<and>
   allocate [] populated_example 5 = Inr ([], allocated_example) \<and>
   last_list_offset allocated_example = Some 0 \<and>
   size_index allocated_example = 5"
proof -
  have "last_list_offset example_index = None"
    "last_list_offset populated_example = Some (size_index populated_example)"
    "last_list_offset allocated_example = Some 0"
    "size_index allocated_example = 5"
    by (simp_all add: last_list_offset_def size_index_def allocated_example_def
        populated_example_def example_index_def store_def)
  with construct_example reachable_populated allocate_populated show ?thesis by simp
qed

subsection \<open>C6: the shape of \<^verbatim>\<open>pq_centers\<close>\<close>

lemma construct_pq_centers:
  assumes c: "construct h m k nl d pb pd nn = Some (Inr (h', idx))"
  shows "(k = PER_SUBSPACE \<or> k = PER_CLUSTER) \<and>
     codebook_kind idx = k \<and> n_lists idx = nl \<and> pq_bits idx = pb \<and> dim idx = d \<and>
     pq_book_size idx = Inr (2 ^ unat pb) \<and>
     (\<exists>l. pq_len idx = Inr l \<and>
        extents (pq_centers_m idx)
          = ((if k = PER_SUBSPACE then pq_dim idx else nl), 2 ^ unat pb, l))"
proof -
  from construct_InrE [OF c] have f: "codebook_kind_m idx = k" "n_lists_m idx = nl"
    "pq_bits_m idx = pb" "dim_m idx = d"
    by (metis (no_types, lifting) index_scalars.select_convs)+
  from construct_shape_ok [OF c] have cc: "check_consistency idx = None"
    and nz: "pq_dim_m idx \<noteq> 0"
    and e: "make_pq_centers_extents idx = Inr (extents (pq_centers_m idx))"
    by (simp_all add: shape_ok_def getter_defs)
  from make_pq_centers_extents_kind [OF e] f have k: "k = PER_SUBSPACE \<or> k = PER_CLUSTER"
    by simp
  from cc f have "pb \<le> 8" by (simp add: check_consistency_None)
  then have "unat pb \<le> 8" by (simp add: word_le_nat_alt)
  then have b: "pq_book_size idx = Inr (2 ^ unat pb)"
    by (simp add: pq_book_size_def getter_defs f push_bit_eq_mult)
  from pq_len_Inr [OF nz] obtain l where l: "pq_len idx = Inr l" ..
  from e k have "extents (pq_centers_m idx)
      = ((if k = PER_SUBSPACE then pq_dim idx else nl), 2 ^ unat pb, l)"
    by (auto simp: make_pq_centers_extents_def b l f getter_defs split: if_splits)
  with k f b l show ?thesis by (simp add: getter_defs)
qed

lemma kinds_distinct: "PER_CLUSTER \<noteq> PER_SUBSPACE"
  by (simp add: PER_SUBSPACE_def PER_CLUSTER_def)

text \<open>
  Claim C6, as amended. In every index the constructor makes, \<^verbatim>\<open>pq_centers\<close> has the
  extents \<^verbatim>\<open>[pq_dim, pq_book_size, pq_len]\<close> for \<^verbatim>\<open>PER_SUBSPACE\<close> and
  \<^verbatim>\<open>[n_lists, pq_book_size, pq_len]\<close> for \<^verbatim>\<open>PER_CLUSTER\<close>; two constructions that differ
  in the codebook kind only agree on \<^verbatim>\<open>pq_dim\<close>, \<^verbatim>\<open>n_lists\<close>, \<^verbatim>\<open>pq_book_size\<close> and
  \<^verbatim>\<open>pq_len\<close>, so these are the two shapes. Every other value of the codebook kind takes
  the \<^verbatim>\<open>default\<close> branch of the switch: the constructor then ends in
  \<^verbatim>\<open>RAFT_FAIL("Unreachable code")\<close>, whatever the handle and the other arguments and
  before any array is requested, so that every index that exists has one of the two
  kinds.
\<close>

theorem pq_centers_shape:
  "(construct h m PER_SUBSPACE nl d pb pd nn = Some (Inr (h1, i1)) \<longrightarrow>
      (\<exists>b l. pq_book_size i1 = Inr b \<and> pq_len i1 = Inr l \<and>
         extents (pq_centers_m i1) = (pq_dim i1, b, l))) \<and>
   (construct h m PER_CLUSTER nl d pb pd nn = Some (Inr (h2, i2)) \<longrightarrow>
      (\<exists>b l. pq_book_size i2 = Inr b \<and> pq_len i2 = Inr l \<and>
         extents (pq_centers_m i2) = (n_lists i2, b, l))) \<and>
   (construct h m PER_SUBSPACE nl d pb pd nn = Some (Inr (h1, i1)) \<and>
    construct h m PER_CLUSTER nl d pb pd nn = Some (Inr (h2, i2)) \<longrightarrow>
      pq_dim i1 = pq_dim i2 \<and> n_lists i1 = n_lists i2 \<and>
      pq_book_size i1 = pq_book_size i2 \<and> pq_len i1 = pq_len i2) \<and>
   (k \<noteq> PER_SUBSPACE \<and> k \<noteq> PER_CLUSTER \<longrightarrow>
      construct h m k nl d pb pd nn = Some (Inl (RaftFail ''Unreachable code''))) \<and>
   (construct h m k nl d pb pd nn = Some (Inr (h3, i3)) \<longrightarrow>
      codebook_kind i3 = k \<and> (k = PER_SUBSPACE \<or> k = PER_CLUSTER))"
proof (intro conjI)
  show "construct h m PER_SUBSPACE nl d pb pd nn = Some (Inr (h1, i1)) \<longrightarrow>
      (\<exists>b l. pq_book_size i1 = Inr b \<and> pq_len i1 = Inr l \<and>
         extents (pq_centers_m i1) = (pq_dim i1, b, l))"
    using construct_pq_centers [of h m PER_SUBSPACE nl d pb pd nn h1 i1] by auto
  show "construct h m PER_CLUSTER nl d pb pd nn = Some (Inr (h2, i2)) \<longrightarrow>
      (\<exists>b l. pq_book_size i2 = Inr b \<and> pq_len i2 = Inr l \<and>
         extents (pq_centers_m i2) = (n_lists i2, b, l))"
    using construct_pq_centers [of h m PER_CLUSTER nl d pb pd nn h2 i2] kinds_distinct
    by (auto simp: getter_defs)
  show "construct h m PER_SUBSPACE nl d pb pd nn = Some (Inr (h1, i1)) \<and>
    construct h m PER_CLUSTER nl d pb pd nn = Some (Inr (h2, i2)) \<longrightarrow>
      pq_dim i1 = pq_dim i2 \<and> n_lists i1 = n_lists i2 \<and>
      pq_book_size i1 = pq_book_size i2 \<and> pq_len i1 = pq_len i2"
  proof
    assume a: "construct h m PER_SUBSPACE nl d pb pd nn = Some (Inr (h1, i1)) \<and>
      construct h m PER_CLUSTER nl d pb pd nn = Some (Inr (h2, i2))"
    from a construct_InrE [of h m PER_SUBSPACE nl d pb pd nn h1 i1] obtain p1 where
      "(if pd = 0 then calculate_pq_dim d else Some pd) = Some p1" "pq_dim_m i1 = p1"
      "dim_m i1 = d"
      by (metis (no_types, lifting) index_scalars.select_convs)
    moreover from a construct_InrE [of h m PER_CLUSTER nl d pb pd nn h2 i2] obtain p2 where
      "(if pd = 0 then calculate_pq_dim d else Some pd) = Some p2" "pq_dim_m i2 = p2"
      "dim_m i2 = d"
      by (metis (no_types, lifting) index_scalars.select_convs)
    ultimately have "pq_dim_m i1 = pq_dim_m i2" "dim_m i1 = dim_m i2" by simp_all
    moreover from a have "n_lists i1 = n_lists i2" "pq_book_size i1 = pq_book_size i2"
      using construct_pq_centers [of h m PER_SUBSPACE nl d pb pd nn h1 i1]
        construct_pq_centers [of h m PER_CLUSTER nl d pb pd nn h2 i2] by simp_all
    ultimately show "pq_dim i1 = pq_dim i2 \<and> n_lists i1 = n_lists i2 \<and>
      pq_book_size i1 = pq_book_size i2 \<and> pq_len i1 = pq_len i2"
      by (simp add: pq_len_def getter_defs)
  qed
  show "k \<noteq> PER_SUBSPACE \<and> k \<noteq> PER_CLUSTER \<longrightarrow>
      construct h m k nl d pb pd nn = Some (Inl (RaftFail ''Unreachable code''))"
    using construct_other_kind [of k h m nl d pb pd nn] by blast
  show "construct h m k nl d pb pd nn = Some (Inr (h3, i3)) \<longrightarrow>
      codebook_kind i3 = k \<and> (k = PER_SUBSPACE \<or> k = PER_CLUSTER)"
    using construct_pq_centers [of h m k nl d pb pd nn h3 i3] by blast
qed

lemma construct_cluster_example:
  "construct [] () PER_CLUSTER 8 128 8 0 0 = Some (Inr ([], cluster_example))"
  by (simp add: construct_def calculate_pq_dim_def round_down_safe_def
      make_pq_centers_extents_def pq_book_size_def pq_len_def rot_dim_def dim_ext_def
      round_up_safe_def div_rounding_up_unsafe_def make_device_mdarray_def
      check_consistency_def getter_defs example_index_def cluster_example_def
      PER_SUBSPACE_def PER_CLUSTER_def)

text \<open>
  The theorem of C6 at the scenario, for both codebook kinds and for the value 2, which is
  neither.
\<close>

theorem pq_centers_shape_witness:
  "construct [] () PER_SUBSPACE 8 128 8 0 0 = Some (Inr ([], example_index)) \<and>
   construct [] () PER_CLUSTER 8 128 8 0 0 = Some (Inr ([], cluster_example)) \<and>
   extents (pq_centers_m example_index) = (pq_dim example_index, 256, 2) \<and>
   extents (pq_centers_m cluster_example) = (n_lists cluster_example, 256, 2) \<and>
   pq_dim example_index = 64 \<and> n_lists cluster_example = 8 \<and>
   pq_book_size example_index = Inr 256 \<and> pq_len example_index = Inr 2 \<and>
   (2 :: codebook_gen) \<noteq> PER_SUBSPACE \<and> (2 :: codebook_gen) \<noteq> PER_CLUSTER \<and>
   construct [] () 2 8 128 8 0 0 = Some (Inl (RaftFail ''Unreachable code''))"
  using pq_centers_shape [of "[]" "()" 8 128 8 0 0 "[]" example_index "[]" cluster_example 2]
    construct_example construct_cluster_example
  by (simp add: example_index_def cluster_example_def getter_defs pq_book_size_def pq_len_def
      div_rounding_up_unsafe_def PER_SUBSPACE_def PER_CLUSTER_def)

text \<open>
  C6 as stated fails in its last part: the \<^verbatim>\<open>default\<close> branch is reached. The value 2 is
  a value of \<^verbatim>\<open>codebook_gen\<close> that is neither enumerator; the switch on it takes the
  \<^verbatim>\<open>default\<close> branch, and the constructor called with it ends there.
\<close>

theorem codebook_kind_default_counterexample:
  "(2 :: codebook_gen) \<noteq> PER_SUBSPACE \<and> (2 :: codebook_gen) \<noteq> PER_CLUSTER \<and>
   make_pq_centers_extents
     \<lparr>metric_m = (), codebook_kind_m = 2, n_lists_m = 8, dim_m = 128, pq_bits_m = 8,
      pq_dim_m = 64, n_nonempty_lists_m = 0\<rparr> = Inl (RaftFail ''Unreachable code'') \<and>
   construct [] () 2 8 128 8 0 0 = Some (Inl (RaftFail ''Unreachable code''))"
  by (simp add: construct_def calculate_pq_dim_def round_down_safe_def
      make_pq_centers_extents_def getter_defs PER_SUBSPACE_def PER_CLUSTER_def)

subsection \<open>C7: the derived dimensions\<close>

lemma round_up_nat:
  fixes N :: nat
  assumes "N mod 8 \<noteq> 0"
  shows "N - N mod 8 + 8 = (N + 7) div 8 * 8"
proof -
  define q r where "q = N div 8" and "r = N mod 8"
  have N: "N = r + q * 8" by (simp add: q_def r_def)
  have r: "0 < r" "r < 8" using assms by (simp_all add: r_def)
  have "N + 7 = (r - 1) + (1 + q) * 8" using N r by simp
  then have "(N + 7) div 8 = ((r - 1) + (1 + q) * 8) div 8" by simp
  also have "\<dots> = (1 + q) + (r - 1) div 8" by (rule div_mult_self1) simp
  also have "\<dots> = 1 + q" using r by simp
  finally have "(N + 7) div 8 * 8 = q * 8 + 8" by simp
  moreover have "N - r + 8 = q * 8 + 8" using N by simp
  ultimately show ?thesis by (simp add: r_def)
qed

lemma unat_round_up_safe:
  fixes x :: u32
  assumes "unat x + 7 < 2 ^ 32"
  shows "unat (round_up_safe x 8) = (unat x + 7) div 8 * 8"
proof (cases "x mod 8 = 0")
  case True
  then have "unat x mod 8 = 0" by (simp add: unat_eq_0 [symmetric] unat_mod)
  then have "(unat x + 7) div 8 * 8 = unat x" by (auto elim!: dvdE simp: mod_eq_0_iff_dvd)
  with True show ?thesis by (simp add: round_up_safe_def)
next
  case False
  then have nz: "unat x mod 8 \<noteq> 0" by (simp add: unat_eq_0 [symmetric] unat_mod)
  have le: "x mod 8 \<le> x" by (simp add: word_le_nat_alt unat_mod)
  have "unat (x - x mod 8) = unat x - unat x mod 8"
    using le by (simp add: unat_sub unat_mod)
  moreover have "unat x - unat x mod 8 + 8 < 2 ^ 32"
  proof -
    have "0 < unat x mod 8" using nz by simp
    then have "unat x - unat x mod 8 + 8 \<le> unat x + 7" by linarith
    from this assms show ?thesis by (rule le_less_trans)
  qed
  ultimately have "unat (x - x mod 8 + 8) = unat x - unat x mod 8 + 8"
    by (simp add: unat_word_ariths)
  moreover have "unat x - unat x mod 8 + 8 = (unat x + 7) div 8 * 8"
    using nz by (rule round_up_nat)
  ultimately show ?thesis using False by (simp add: round_up_safe_def)
qed

lemma getters_of_constructed:
  "construct h m k nl d pb pd nn = Some (Inr (h', idx)) \<longrightarrow>
     dim_ext idx = round_up_safe (dim idx + 1) 8 \<and>
     (unat (dim idx) + 8 < 2 ^ 32 \<longrightarrow> unat (dim_ext idx) = (unat (dim idx) + 1 + 7) div 8 * 8) \<and>
     pq_len idx = div_rounding_up_unsafe (dim idx) (pq_dim idx) \<and>
     (\<exists>l. pq_len idx = Inr l \<and>
          unat l = (unat (dim idx) + unat (pq_dim idx) - 1) div unat (pq_dim idx) \<and>
          rot_dim idx = Inr (l * pq_dim idx)) \<and>
     pq_book_size idx = Inr (push_bit (unat (pq_bits idx)) 1) \<and>
     pq_book_size idx = Inr (2 ^ unat (pq_bits idx)) \<and>
     (nl = 8 \<and> pb = 8 \<and> pd = 0 \<and> d = 128 \<longrightarrow>
        pq_dim idx = 64 \<and> pq_book_size idx = Inr 256 \<and> dim_ext idx = 136 \<and>
        pq_len idx = Inr 2 \<and> rot_dim idx = Inr 128)"
proof
  assume c: "construct h m k nl d pb pd nn = Some (Inr (h', idx))"
  from construct_shape_ok [OF c] have nz: "pq_dim idx \<noteq> 0" by (simp add: shape_ok_def)
  from construct_pq_centers [OF c] have f: "pq_bits idx = pb" "dim idx = d"
    and b: "pq_book_size idx = Inr (2 ^ unat pb)" by simp_all
  have de: "unat (dim_ext idx) = (unat (dim idx) + 1 + 7) div 8 * 8"
    if "unat (dim idx) + 8 < 2 ^ 32"
  proof -
    from that have "unat (dim idx + 1) = unat (dim idx) + 1"
      by (simp add: unat_word_ariths)
    with that unat_round_up_safe [of "dim idx + 1"] show ?thesis by (simp add: dim_ext_def)
  qed
  define l where "l = dim idx div pq_dim idx + (if dim idx mod pq_dim idx = 0 then 0 else 1)"
  from nz have pl: "pq_len idx = Inr l"
    by (simp add: pq_len_def div_rounding_up_unsafe_def l_def)
  have ul: "unat l = (unat (dim idx) + unat (pq_dim idx) - 1) div unat (pq_dim idx)"
    unfolding l_def using nz by (rule unat_ceil_div)
  have rd: "rot_dim idx = Inr (l * pq_dim idx)" by (simp add: rot_dim_def pl)
  have sc: "pq_dim idx = 64 \<and> pq_book_size idx = Inr 256 \<and> dim_ext idx = 136 \<and>
        pq_len idx = Inr 2 \<and> rot_dim idx = Inr 128"
    if s: "nl = 8 \<and> pb = 8 \<and> pd = 0 \<and> d = 128"
  proof -
    from construct_InrE [OF c] obtain p where
      "(if pd = 0 then calculate_pq_dim d else Some pd) = Some p" "pq_dim_m idx = p"
      by (metis (no_types, lifting) index_scalars.select_convs)
    with s have p: "pq_dim idx = 64"
      by (simp add: calculate_pq_dim_eq halved_def round_down_safe_def getter_defs)
    with s f b show ?thesis
      by (simp add: dim_ext_def round_up_safe_def pq_len_def rot_dim_def
          div_rounding_up_unsafe_def)
  qed
  from b f have b2: "pq_book_size idx = Inr (push_bit (unat (pq_bits idx)) 1)"
    by (simp add: push_bit_eq_mult)
  show "dim_ext idx = round_up_safe (dim idx + 1) 8 \<and>
     (unat (dim idx) + 8 < 2 ^ 32 \<longrightarrow> unat (dim_ext idx) = (unat (dim idx) + 1 + 7) div 8 * 8) \<and>
     pq_len idx = div_rounding_up_unsafe (dim idx) (pq_dim idx) \<and>
     (\<exists>l. pq_len idx = Inr l \<and>
          unat l = (unat (dim idx) + unat (pq_dim idx) - 1) div unat (pq_dim idx) \<and>
          rot_dim idx = Inr (l * pq_dim idx)) \<and>
     pq_book_size idx = Inr (push_bit (unat (pq_bits idx)) 1) \<and>
     pq_book_size idx = Inr (2 ^ unat (pq_bits idx)) \<and>
     (nl = 8 \<and> pb = 8 \<and> pd = 0 \<and> d = 128 \<longrightarrow>
        pq_dim idx = 64 \<and> pq_book_size idx = Inr 256 \<and> dim_ext idx = 136 \<and>
        pq_len idx = Inr 2 \<and> rot_dim idx = Inr 128)"
    using de pl ul rd sc b b2 f by (auto simp: dim_ext_def pq_len_def)
qed





subsection \<open>C8: \<^verbatim>\<open>rot_dim\<close> is a multiple of \<^verbatim>\<open>pq_dim\<close> and covers \<^verbatim>\<open>dim\<close>\<close>

text \<open>
  The comments of the source state both relations (\<^verbatim>\<open>rot_dim % pq_dim == 0\<close> at
  \<^verbatim>\<open>force_random_rotation\<close>, \<^verbatim>\<open>rot_dim >= dim\<close> at the class), and the code computes them
  right as long as \<open>dim + pq_dim - 1\<close> fits 32 bits, where the product
  \<^verbatim>\<open>pq_len() * pq_dim()\<close> cannot wrap around.
\<close>

lemma rot_dim_when_product_fits:
  assumes c: "construct h m k nl d pb pd nn = Some (Inr (h', idx))"
    and fit: "unat (dim idx) + unat (pq_dim idx) \<le> 2 ^ 32"
  shows "\<exists>r. rot_dim idx = Inr r \<and> r mod pq_dim idx = 0 \<and> dim idx \<le> r"
proof -
  from construct_shape_ok [OF c] have nz: "pq_dim idx \<noteq> 0" by (simp add: shape_ok_def)
  then have b: "0 < unat (pq_dim idx)" by (simp add: unat_gt_0)
  from getters_of_constructed [of h m k nl d pb pd nn h' idx] c obtain l where
    ul: "unat l = (unat (dim idx) + unat (pq_dim idx) - 1) div unat (pq_dim idx)" and
    rd: "rot_dim idx = Inr (l * pq_dim idx)" by blast
  from ceil_div_nat_bounds [OF b, of "unat (dim idx)"] ul
  have lo: "unat (dim idx) \<le> unat l * unat (pq_dim idx)"
    and hi: "unat l * unat (pq_dim idx) \<le> unat (dim idx) + unat (pq_dim idx) - 1"
    by simp_all
  from hi fit b have "unat l * unat (pq_dim idx) < 2 ^ 32" by linarith
  then have um: "unat (l * pq_dim idx) = unat l * unat (pq_dim idx)"
    by (simp add: unat_word_ariths)
  have "unat (l * pq_dim idx mod pq_dim idx) = 0" by (simp add: unat_mod um)
  then have "l * pq_dim idx mod pq_dim idx = 0" by (simp add: unat_eq_0)
  moreover from lo um have "dim idx \<le> l * pq_dim idx" by (simp add: word_le_nat_alt)
  ultimately show ?thesis using rd by simp
qed

lemma construct_wide:
  "construct [] () PER_SUBSPACE 1 4294967287 8 16 0 = Some (Inr ([], wide_index))"
  by (simp add: construct_def make_pq_centers_extents_def pq_book_size_def pq_len_def
      rot_dim_def dim_ext_def round_up_safe_def div_rounding_up_unsafe_def
      make_device_mdarray_def check_consistency_def getter_defs wide_index_def
      PER_SUBSPACE_def PER_CLUSTER_def)

text \<open>
  Claim C8 (for every index the constructor makes, \<^verbatim>\<open>rot_dim % pq_dim == 0\<close> and
  \<^verbatim>\<open>rot_dim >= dim\<close>) is what the comments of the source say, and the code breaks it: for
  \<^verbatim>\<open>n_lists = 1\<close>, \<^verbatim>\<open>dim = 4294967287\<close>, \<^verbatim>\<open>pq_bits = 8\<close>, \<^verbatim>\<open>pq_dim = 16\<close> the constructor
  returns an index, the unchecked 32-bit product wraps around, and \<^verbatim>\<open>rot_dim()\<close> is 0,
  below \<^verbatim>\<open>dim()\<close>.
\<close>

theorem rot_dim_wraps_at_wide_index:
  "construct [] () PER_SUBSPACE 1 4294967287 8 16 0 = Some (Inr ([], wide_index)) \<and>
   dim wide_index = 4294967287 \<and> pq_dim wide_index = 16 \<and>
   rot_dim wide_index = Inr 0 \<and> \<not> dim wide_index \<le> 0"
  using construct_wide
  by (simp add: wide_index_def rot_dim_def pq_len_def div_rounding_up_unsafe_def getter_defs)

subsection \<open>C9: the alignment check of the aligned matrix view\<close>

lemma aligned_iff: "ptr = alignTo ptr alignment_value \<longleftrightarrow> ptr mod 128 = 0"
proof (cases "ptr mod 128 = 0")
  case True
  then show ?thesis by (simp add: alignTo_def alignment_value_def)
next
  case False
  have "unat (ptr mod 128) < 128" by (simp add: unat_mod)
  then have ne: "ptr mod 128 \<noteq> 128" by auto
  have "ptr - ptr mod 128 + 128 \<noteq> ptr"
  proof
    assume "ptr - ptr mod 128 + 128 = ptr"
    then have "ptr + (128 - ptr mod 128) = ptr + 0" by (simp add: algebra_simps)
    then have "128 - ptr mod 128 = 0" by (simp only: add_left_cancel)
    with ne show False by simp
  qed
  with False show ?thesis by (auto simp: alignTo_def alignment_value_def)
qed

text \<open>
  Claim C9, as amended. In a build with assertions (\<^verbatim>\<open>NDEBUG\<close> not defined), making an
  aligned matrix view from a pointer that is not a multiple of 128 fails the assertion,
  and no view is made. From a pointer that is a multiple of 128, and in a build without
  assertions from any pointer, the call returns the view of that pointer with the
  extents \<^verbatim>\<open>[n_rows, n_cols]\<close>.
\<close>

theorem aligned_view_check:
  "(\<not> NDEBUG \<and> ptr mod 128 \<noteq> 0 \<longrightarrow>
      make_device_aligned_matrix_view NDEBUG ptr n_rows n_cols = Inl AssertionFailure) \<and>
   (NDEBUG \<or> ptr mod 128 = 0 \<longrightarrow>
      make_device_aligned_matrix_view NDEBUG ptr n_rows n_cols
        = Inr \<lparr>data_handle = ptr, view_extents = (n_rows, n_cols)\<rparr>)"
  by (auto simp: make_device_aligned_matrix_view_def aligned_iff)

text \<open>The theorem of C9 at the addresses 130 and 256, with assertions.\<close>

theorem aligned_view_check_witness:
  "(130 :: address) mod 128 \<noteq> 0 \<and> (256 :: address) mod 128 = 0 \<and>
   make_device_aligned_matrix_view False 130 (2 :: u32) 3 = Inl AssertionFailure \<and>
   make_device_aligned_matrix_view False 256 (2 :: u32) 3
     = Inr \<lparr>data_handle = 256, view_extents = (2, 3)\<rparr>"
  using aligned_view_check [of False 130 "2 :: u32" 3] aligned_view_check [of False 256 "2 :: u32" 3]
  by simp

text \<open>
  C9 as stated fails in a build with \<^verbatim>\<open>NDEBUG\<close>: the address 130 is not a multiple of
  128, and the view is made all the same.
\<close>

theorem aligned_view_unchecked_counterexample:
  "(130 :: address) mod 128 \<noteq> 0 \<and>
   make_device_aligned_matrix_view True 130 (2 :: u32) 3
     = Inr \<lparr>data_handle = 130, view_extents = (2, 3)\<rparr>"
  by (simp add: make_device_aligned_matrix_view_def)

end
